theory Spec2Isabelle
  imports Main "HOL-Library.Word"
begin

unbundle bit_operations_syntax

section \<open>MIPI DBI command and bus-encoding layer (mipi-dbi.c)\<close>

subsection \<open>Machine types and constants\<close>

type_synonym u8 = "8 word"
type_synonym u16 = "16 word"
type_synonym u32 = "32 word"
type_synonym u64 = "64 word"

text \<open>A \<^verbatim>\<open>u8 *\<close> argument is the memory found at the pointer: offset to byte. The C code
  indexes it without any bound of its own, so the model does the same.\<close>

type_synonym mem = "nat \<Rightarrow> u8"

text \<open>Error numbers of the kernel (errno-base.h, errno.h); the functions return them negated.\<close>

definition ENOMEM :: int where "ENOMEM = 12"
definition EACCES :: int where "EACCES = 13"
definition EINVAL :: int where "EINVAL = 22"
definition ENOTSUPP :: int where "ENOTSUPP = 524"

text \<open>DCS command bytes of video/mipi_display.h that mipi-dbi.c names.\<close>

definition MIPI_DCS_GET_DISPLAY_ID :: u8 where "MIPI_DCS_GET_DISPLAY_ID = 0x04"
definition MIPI_DCS_GET_RED_CHANNEL :: u8 where "MIPI_DCS_GET_RED_CHANNEL = 0x06"
definition MIPI_DCS_GET_GREEN_CHANNEL :: u8 where "MIPI_DCS_GET_GREEN_CHANNEL = 0x07"
definition MIPI_DCS_GET_BLUE_CHANNEL :: u8 where "MIPI_DCS_GET_BLUE_CHANNEL = 0x08"
definition MIPI_DCS_GET_DISPLAY_STATUS :: u8 where "MIPI_DCS_GET_DISPLAY_STATUS = 0x09"
definition MIPI_DCS_GET_POWER_MODE :: u8 where "MIPI_DCS_GET_POWER_MODE = 0x0A"
definition MIPI_DCS_GET_ADDRESS_MODE :: u8 where "MIPI_DCS_GET_ADDRESS_MODE = 0x0B"
definition MIPI_DCS_GET_PIXEL_FORMAT :: u8 where "MIPI_DCS_GET_PIXEL_FORMAT = 0x0C"
definition MIPI_DCS_GET_DISPLAY_MODE :: u8 where "MIPI_DCS_GET_DISPLAY_MODE = 0x0D"
definition MIPI_DCS_GET_SIGNAL_MODE :: u8 where "MIPI_DCS_GET_SIGNAL_MODE = 0x0E"
definition MIPI_DCS_GET_DIAGNOSTIC_RESULT :: u8 where "MIPI_DCS_GET_DIAGNOSTIC_RESULT = 0x0F"
definition MIPI_DCS_SET_COLUMN_ADDRESS :: u8 where "MIPI_DCS_SET_COLUMN_ADDRESS = 0x2A"
definition MIPI_DCS_SET_PAGE_ADDRESS :: u8 where "MIPI_DCS_SET_PAGE_ADDRESS = 0x2B"
definition MIPI_DCS_WRITE_MEMORY_START :: u8 where "MIPI_DCS_WRITE_MEMORY_START = 0x2C"
definition MIPI_DCS_READ_MEMORY_START :: u8 where "MIPI_DCS_READ_MEMORY_START = 0x2E"
definition MIPI_DCS_READ_MEMORY_CONTINUE :: u8 where "MIPI_DCS_READ_MEMORY_CONTINUE = 0x3E"
definition MIPI_DCS_GET_SCANLINE :: u8 where "MIPI_DCS_GET_SCANLINE = 0x45"
definition MIPI_DCS_GET_DISPLAY_BRIGHTNESS :: u8 where "MIPI_DCS_GET_DISPLAY_BRIGHTNESS = 0x52"
definition MIPI_DCS_GET_CONTROL_DISPLAY :: u8 where "MIPI_DCS_GET_CONTROL_DISPLAY = 0x54"
definition MIPI_DCS_GET_POWER_SAVE :: u8 where "MIPI_DCS_GET_POWER_SAVE = 0x56"
definition MIPI_DCS_GET_CABC_MIN_BRIGHTNESS :: u8 where "MIPI_DCS_GET_CABC_MIN_BRIGHTNESS = 0x5F"
definition MIPI_DCS_READ_DDB_START :: u8 where "MIPI_DCS_READ_DDB_START = 0xA1"
definition MIPI_DCS_READ_DDB_CONTINUE :: u8 where "MIPI_DCS_READ_DDB_CONTINUE = 0xA8"

definition MIPI_DBI_MAX_SPI_READ_SPEED :: nat where "MIPI_DBI_MAX_SPI_READ_SPEED = 2000000"

text \<open>The zero-terminated table of read commands.\<close>

definition mipi_dbi_dcs_read_commands :: "u8 list" where
  "mipi_dbi_dcs_read_commands =
    [MIPI_DCS_GET_DISPLAY_ID, MIPI_DCS_GET_RED_CHANNEL, MIPI_DCS_GET_GREEN_CHANNEL,
     MIPI_DCS_GET_BLUE_CHANNEL, MIPI_DCS_GET_DISPLAY_STATUS, MIPI_DCS_GET_POWER_MODE,
     MIPI_DCS_GET_ADDRESS_MODE, MIPI_DCS_GET_PIXEL_FORMAT, MIPI_DCS_GET_DISPLAY_MODE,
     MIPI_DCS_GET_SIGNAL_MODE, MIPI_DCS_GET_DIAGNOSTIC_RESULT, MIPI_DCS_READ_MEMORY_START,
     MIPI_DCS_READ_MEMORY_CONTINUE, MIPI_DCS_GET_SCANLINE, MIPI_DCS_GET_DISPLAY_BRIGHTNESS,
     MIPI_DCS_GET_CONTROL_DISPLAY, MIPI_DCS_GET_POWER_SAVE, MIPI_DCS_GET_CABC_MIN_BRIGHTNESS,
     MIPI_DCS_READ_DDB_START, MIPI_DCS_READ_DDB_CONTINUE,
     0]"

subsection \<open>Device state\<close>

text \<open>What the code asks of the SPI device: its maximum clock rate, and the two helpers
  \<^verbatim>\<open>tinydrm_spi_bpw_supported(spi, bpw)\<close> and \<^verbatim>\<open>tinydrm_spi_max_transfer_size(spi, max_len)\<close>
  of tinydrm-helpers.c, taken as given functions of the device.\<close>

record spi_device =
  max_speed_hz :: nat
  bpw_supported :: "nat \<Rightarrow> bool"
  max_transfer_size :: "nat \<Rightarrow> nat"

text \<open>The two functions that \<^verbatim>\<open>mipi->command\<close> can point to.\<close>

datatype command_fn = Typec1_command | Typec3_command

text \<open>\<^verbatim>\<open>struct mipi_dbi\<close>, with the \<open>enabled\<close> and \<open>prepared\<close> flags of its
  \<^verbatim>\<open>tinydrm_device\<close>: the fields that the functions below read or write. A pointer that is
  only tested against NULL is an option of a handle.\<close>

record mipi_dbi =
  spi :: spi_device
  command :: "command_fn option"
  read_commands :: "u8 list option"
  dc :: "nat option"
  write_only :: bool
  swap_bytes :: bool
  enable_delay_ms :: nat
  rotation :: nat
  enabled :: bool
  prepared :: bool

subsection \<open>Command classification\<close>

text \<open>The loop of \<^verbatim>\<open>mipi_dbi_command_is_read\<close> from index \<open>i\<close>. Reading an entry that the table
  does not have is outside the array: the model gives \<open>None\<close> there.\<close>

function command_is_read_from :: "u8 list \<Rightarrow> u8 \<Rightarrow> nat \<Rightarrow> bool option" where
  "command_is_read_from tbl cmd i =
     (if i < 0xff then
        (if i < length tbl then
           (if tbl ! i = 0 then Some False
            else if cmd = tbl ! i then Some True
            else command_is_read_from tbl cmd (i + 1))
         else None)
      else Some False)"
  by pat_completeness auto
termination
  by (relation "measure (\<lambda>(tbl, cmd, i). 0xff - i)") auto

declare command_is_read_from.simps [simp del]

definition mipi_dbi_command_is_read :: "mipi_dbi \<Rightarrow> u8 \<Rightarrow> bool option" where
  "mipi_dbi_command_is_read mipi cmd =
     (case read_commands mipi of
        None \<Rightarrow> Some False
      | Some tbl \<Rightarrow> command_is_read_from tbl cmd 0)"

subsection \<open>The outside world\<close>

text \<open>A transmit buffer is an array of bytes or, for the 9-bit words of
  \<^verbatim>\<open>mipi_dbi_spi1_transfer\<close>, an array of \<^verbatim>\<open>u16\<close>.\<close>

datatype txbuf = NoTx | TxBytes "u8 list" | TxWords "u16 list"

text \<open>\<^verbatim>\<open>struct spi_transfer\<close>: the fields the code sets. \<open>tx_buf\<close> holds what the code has
  written to the buffer for this transfer, \<open>len\<close> is \<^verbatim>\<open>tr.len\<close>, \<open>rx_buf\<close> says whether a
  receive buffer is attached. A field the code leaves alone is 0.\<close>

record spi_transfer =
  bits_per_word :: nat
  speed_hz :: nat
  tx_buf :: txbuf
  rx_buf :: bool
  len :: nat

text \<open>Where the pixels of a memory write come from: the staging buffer \<^verbatim>\<open>mipi->tx_buf\<close> or
  the framebuffer's own memory \<^verbatim>\<open>cma_obj->vaddr\<close>.\<close>

datatype pixel_source = Tx_buf | Vaddr

datatype payload = Params "u8 list" | Stream pixel_source nat

text \<open>\<^verbatim>\<open>struct drm_clip_rect\<close>: four \<^verbatim>\<open>unsigned short\<close>.\<close>

record drm_clip_rect =
  x1 :: u16
  y1 :: u16
  x2 :: u16
  y2 :: u16

text \<open>Every call that leaves mipi-dbi.c is an event of the trace; a call that returns a status
  carries the status it returned.\<close>

datatype event =
    Spi_sync "spi_transfer list" int
  | Gpiod_set_value nat
  | Tinydrm_spi_transfer nat "u8 list" int
  | Dma_buf_begin_cpu_access int
  | Dma_buf_end_cpu_access int
  | Tinydrm_swab16 "drm_clip_rect"
  | Tinydrm_memcpy "drm_clip_rect"
  | Tinydrm_xrgb8888_to_rgb565 "drm_clip_rect" bool
  | Command_buf u8 payload int
  | Msleep nat
  | Tinydrm_enable_backlight int

text \<open>The world outside the driver: the trace of calls made so far, the status codes the
  next calls will return (in call order, 0 once the list is used up), the outcomes of the
  next allocations (success once used up), and the bytes the controller answers a read
  with.\<close>

record world =
  trace :: "event list"
  rets :: "int list"
  allocs :: "bool list"
  miso :: "nat \<Rightarrow> u8"

definition emit :: "event \<Rightarrow> world \<Rightarrow> world" where
  "emit e w = w\<lparr>trace := trace w @ [e]\<rparr>"

definition next_ret :: "world \<Rightarrow> int \<times> world" where
  "next_ret w = (case rets w of [] \<Rightarrow> (0, w) | r # rs \<Rightarrow> (r, w\<lparr>rets := rs\<rparr>))"

definition kmalloc :: "world \<Rightarrow> bool \<times> world" where
  "kmalloc w = (case allocs w of [] \<Rightarrow> (True, w) | a # as \<Rightarrow> (a, w\<lparr>allocs := as\<rparr>))"

definition kzalloc :: "world \<Rightarrow> bool \<times> world" where
  "kzalloc w = kmalloc w"

definition spi_sync :: "spi_transfer list \<Rightarrow> world \<Rightarrow> int \<times> world" where
  "spi_sync m w = (let (r, w') = next_ret w in (r, emit (Spi_sync m r) w'))"

definition gpiod_set_value_cansleep :: "nat \<Rightarrow> world \<Rightarrow> world" where
  "gpiod_set_value_cansleep v w = emit (Gpiod_set_value v) w"

text \<open>\<^verbatim>\<open>tinydrm_spi_transfer(spi, 0, NULL, bpw, buf, len)\<close> of tinydrm-helpers.c: the bytes
  handed over and the word size.\<close>

definition tinydrm_spi_transfer :: "nat \<Rightarrow> mem \<Rightarrow> nat \<Rightarrow> world \<Rightarrow> int \<times> world" where
  "tinydrm_spi_transfer bpw buf n w =
     (let (r, w') = next_ret w in (r, emit (Tinydrm_spi_transfer bpw (map buf [0..<n]) r) w'))"

subsection \<open>Type C option 1: eight 9-bit words in nine bytes\<close>

text \<open>\<^verbatim>\<open>SHIFT_U9_INTO_U64\<close>: set the control bit of slot \<open>pos\<close> and put the byte behind it.\<close>

definition SHIFT_U9_INTO_U64 :: "u64 \<Rightarrow> u8 \<Rightarrow> nat \<Rightarrow> u64" where
  "SHIFT_U9_INTO_U64 dst src pos =
     (dst OR push_bit (63 - pos * 9) 1) OR push_bit (63 - 8 - pos * 9) (ucast src)"

text \<open>\<^verbatim>\<open>*(u64 *)dst = cpu_to_be64(tmp)\<close>: the eight bytes, most significant first.\<close>

definition cpu_to_be64 :: "u64 \<Rightarrow> u8 list" where
  "cpu_to_be64 tmp = map (\<lambda>k. ucast (drop_bit (56 - 8 * k) tmp)) [0..<8]"

text \<open>The partial block: \<^verbatim>\<open>for (j = 0; j < chunk; j++) SHIFT_U9_INTO_U64(tmp, *src++, j)\<close>,
  from \<open>j\<close> on, with \<open>src\<close> read at offset \<open>pos\<close>.\<close>

function shift_partial :: "mem \<Rightarrow> nat \<Rightarrow> nat \<Rightarrow> nat \<Rightarrow> u64 \<Rightarrow> u64" where
  "shift_partial src pos j chunk tmp =
     (if j < chunk
      then shift_partial src (pos + 1) (j + 1) chunk (SHIFT_U9_INTO_U64 tmp (src pos) j)
      else tmp)"
  by pat_completeness auto
termination
  by (relation "measure (\<lambda>(src, pos, j, chunk, tmp). chunk - j)") auto

declare shift_partial.simps [simp del]

text \<open>One full block: seven bytes shifted in, the control bit of the eighth slot set, the
  eighth byte stored behind the big-endian word.\<close>

definition pack_block :: "mem \<Rightarrow> nat \<Rightarrow> u8 list" where
  "pack_block src pos =
     (let tmp = SHIFT_U9_INTO_U64 0 (src pos) 0;
          tmp = SHIFT_U9_INTO_U64 tmp (src (pos + 1)) 1;
          tmp = SHIFT_U9_INTO_U64 tmp (src (pos + 2)) 2;
          tmp = SHIFT_U9_INTO_U64 tmp (src (pos + 3)) 3;
          tmp = SHIFT_U9_INTO_U64 tmp (src (pos + 4)) 4;
          tmp = SHIFT_U9_INTO_U64 tmp (src (pos + 5)) 5;
          tmp = SHIFT_U9_INTO_U64 tmp (src (pos + 6)) 6;
          tmp = tmp OR 0x1
      in cpu_to_be64 tmp @ [src (pos + 7)])"

text \<open>\<^verbatim>\<open>for (i = 0; i < chunk; i += 8)\<close>: the bytes written to the buffer and the value of
  \<^verbatim>\<open>added\<close>. Every round reads eight source bytes, whatever is left of \<open>chunk\<close>.\<close>

function pack_blocks :: "mem \<Rightarrow> nat \<Rightarrow> nat \<Rightarrow> nat \<Rightarrow> u8 list \<times> nat" where
  "pack_blocks src pos i chunk =
     (if i < chunk
      then (let (bs, added) = pack_blocks src (pos + 8) (i + 8) chunk
            in (pack_block src pos @ bs, added + 1))
      else ([], 0))"
  by pat_completeness auto
termination
  by (relation "measure (\<lambda>(src, pos, i, chunk). chunk - i)") auto

declare pack_blocks.simps [simp del]

text \<open>The \<^verbatim>\<open>while (len)\<close> loop of \<^verbatim>\<open>mipi_dbi_spi1e_transfer\<close>. \<open>pos\<close> is how far \<open>src\<close> has
  advanced. The result is the function's return value and the world; \<open>None\<close> is a loop
  that does not end.\<close>

partial_function (option) spi1e_loop ::
  "mem \<Rightarrow> nat \<Rightarrow> nat \<Rightarrow> nat \<Rightarrow> world \<Rightarrow> (int \<times> world) option" where
  "spi1e_loop src pos n max_src_chunk w =
     (if n = 0 then Some (0, w)
      else
        (let chunk = min n max_src_chunk;
             n' = n - chunk
         in if chunk < 8 then
              (let tmp = shift_partial src pos 0 chunk 0;
                   dst = cpu_to_be64 tmp @ [0x00];
                   chunk' = 8;
                   added = 1;
                   tr = \<lparr>bits_per_word = 8, speed_hz = 0, tx_buf = TxBytes dst,
                         rx_buf = False, len = chunk' + added\<rparr>;
                   (ret, w') = spi_sync [tr] w
               in if ret \<noteq> 0 then Some (ret, w')
                  else spi1e_loop src (pos + chunk) n' max_src_chunk w')
            else
              (let (dst, added) = pack_blocks src pos 0 chunk;
                   tr = \<lparr>bits_per_word = 8, speed_hz = 0, tx_buf = TxBytes dst,
                         rx_buf = False, len = chunk + added\<rparr>;
                   (ret, w') = spi_sync [tr] w
               in if ret \<noteq> 0 then Some (ret, w')
                  else spi1e_loop src (pos + 8 * added) n' max_src_chunk w')))"

declare spi1e_loop.simps [code]

text \<open>\<^verbatim>\<open>mipi_dbi_spi1e_transfer\<close>. Sizes are \<^verbatim>\<open>size_t\<close>; nothing here can exceed the
  larger of \<open>max_chunk\<close> and \<open>n\<close>, so they are natural numbers. \<^verbatim>\<open>x & ~0x7\<close> is
  \<open>x - x mod 8\<close>.\<close>

definition mipi_dbi_spi1e_transfer ::
  "mipi_dbi \<Rightarrow> int \<Rightarrow> mem \<Rightarrow> nat \<Rightarrow> nat \<Rightarrow> world \<Rightarrow> (int \<times> world) option" where
  "mipi_dbi_spi1e_transfer mipi dcv src n max_chunk w =
     (let max_chunk = max_transfer_size (spi mipi) max_chunk
      in if max_chunk < 9 then Some (- EINVAL, w)
         else if dcv = 0 then
           (if n \<noteq> 1 then Some (- EINVAL, w)
            else
              (let (ok, w1) = kzalloc w
               in if \<not> ok then Some (- ENOMEM, w1)
                  else
                    (let dst = (replicate 9 0) [8 := src 0];
                         tr = \<lparr>bits_per_word = 8, speed_hz = 0, tx_buf = TxBytes dst,
                               rx_buf = False, len = 9\<rparr>
                     in Some (spi_sync [tr] w1))))
         else
           (let max_src_chunk = max_chunk div 9 * 8;
                max_src_chunk = min max_src_chunk n;
                max_src_chunk = max 8 (max_src_chunk - max_src_chunk mod 8);
                (ok, w1) = kmalloc w
            in if \<not> ok then Some (- ENOMEM, w1)
               else spi1e_loop src 0 n max_src_chunk w1))"

subsection \<open>Type C option 1: native 9-bit words\<close>

text \<open>The \<^verbatim>\<open>while (len)\<close> loop of \<^verbatim>\<open>mipi_dbi_spi1_transfer\<close>.\<close>

partial_function (option) spi1_loop ::
  "mem \<Rightarrow> nat \<Rightarrow> nat \<Rightarrow> nat \<Rightarrow> int \<Rightarrow> world \<Rightarrow> (int \<times> world) option" where
  "spi1_loop src8 pos n max_src_chunk dcv w =
     (if n = 0 then Some (0, w)
      else
        (let chunk = min n max_src_chunk;
             dst16 = map (\<lambda>i. if dcv \<noteq> 0 then (ucast (src8 (pos + i)) :: u16) OR 0x0100
                               else ucast (src8 (pos + i))) [0..<chunk];
             tr = \<lparr>bits_per_word = 9, speed_hz = 0, tx_buf = TxWords dst16,
                   rx_buf = False, len = chunk\<rparr>;
             n' = n - chunk;
             (ret, w') = spi_sync [tr] w
         in if ret \<noteq> 0 then Some (ret, w')
            else spi1_loop src8 (pos + chunk) n' max_src_chunk dcv w'))"

declare spi1_loop.simps [code]

definition mipi_dbi_spi1_transfer ::
  "mipi_dbi \<Rightarrow> int \<Rightarrow> mem \<Rightarrow> nat \<Rightarrow> nat \<Rightarrow> world \<Rightarrow> (int \<times> world) option" where
  "mipi_dbi_spi1_transfer mipi dcv buf n max_chunk w =
     (if \<not> bpw_supported (spi mipi) 9
      then mipi_dbi_spi1e_transfer mipi dcv buf n max_chunk w
      else
        (let max_chunk = max_transfer_size (spi mipi) max_chunk;
             max_src_chunk = min (max_chunk div 2) n;
             (ok, w1) = kmalloc w
         in if \<not> ok then Some (- ENOMEM, w1)
            else spi1_loop buf 0 n max_src_chunk dcv w1))"

text \<open>\<^verbatim>\<open>mipi_dbi_typec1_command\<close>. \<^verbatim>\<open>&cmd\<close> is a one-byte buffer.\<close>

definition mipi_dbi_typec1_command ::
  "mipi_dbi \<Rightarrow> u8 \<Rightarrow> mem \<Rightarrow> nat \<Rightarrow> world \<Rightarrow> (int \<times> world) option" where
  "mipi_dbi_typec1_command mipi cmd parameters num w =
     (case mipi_dbi_command_is_read mipi cmd of
        None \<Rightarrow> None
      | Some True \<Rightarrow> Some (- ENOTSUPP, w)
      | Some False \<Rightarrow>
          (case mipi_dbi_spi1_transfer mipi 0 (\<lambda>_. cmd) 1 4096 w of
             None \<Rightarrow> None
           | Some (ret, w1) \<Rightarrow>
               if ret \<noteq> 0 then Some (ret, w1)
               else if num \<noteq> 0 then mipi_dbi_spi1_transfer mipi 1 parameters num 4096 w1
               else Some (ret, w1)))"

subsection \<open>Type C option 3: 8-bit words and a D/C line\<close>

text \<open>\<^verbatim>\<open>mipi_dbi_typec3_command_read\<close>. The result is the return value, the caller's \<open>data\<close>
  buffer and the world. \<open>buf\<close> is the receive buffer after \<^verbatim>\<open>spi_sync\<close>; the arithmetic on
  its bytes is done in \<^verbatim>\<open>int\<close> and stored as \<^verbatim>\<open>u8\<close>.\<close>

definition mipi_dbi_typec3_command_read ::
  "mipi_dbi \<Rightarrow> u8 \<Rightarrow> mem \<Rightarrow> nat \<Rightarrow> world \<Rightarrow> int \<times> mem \<times> world" where
  "mipi_dbi_typec3_command_read mipi cmd data n w =
     (let speed = min MIPI_DBI_MAX_SPI_READ_SPEED (max_speed_hz (spi mipi) div 2);
          tr0 = \<lparr>bits_per_word = 0, speed_hz = speed, tx_buf = TxBytes [cmd],
                 rx_buf = False, len = 1\<rparr>;
          tr1 = \<lparr>bits_per_word = 0, speed_hz = speed, tx_buf = NoTx,
                 rx_buf = False, len = n\<rparr>
      in if n = 0 then (- EINVAL, data, w)
         else if write_only mipi then (- EACCES, data, w)
         else if (cmd = MIPI_DCS_GET_DISPLAY_ID \<or> cmd = MIPI_DCS_GET_DISPLAY_STATUS)
                 \<and> \<not> (n = 3 \<or> n = 4)
         then (- EINVAL, data, w)
         else
           (let tr1 = (if cmd = MIPI_DCS_GET_DISPLAY_ID \<or> cmd = MIPI_DCS_GET_DISPLAY_STATUS
                       then tr1\<lparr>len := n + 1\<rparr> else tr1);
                (ok, w1) = kmalloc w
            in if \<not> ok then (- ENOMEM, data, w1)
               else
                 (let tr1 = tr1\<lparr>rx_buf := True\<rparr>;
                      w2 = gpiod_set_value_cansleep 0 w1;
                      (ret, w3) = spi_sync [tr0, tr1] w2
                  in if ret \<noteq> 0 then (ret, data, w3)
                     else
                       (let buf = miso w3
                        in if len tr1 = n
                           then (ret, (\<lambda>i. if i < n then buf i else data i), w3)
                           else (ret,
                                 (\<lambda>i. if i < n
                                    then ucast (push_bit 1 (ucast (buf i) :: u32)
                                           OR (if buf (i + 1) AND 0x80 \<noteq> 0 then 1 else 0))
                                    else data i),
                                 w3)))))"

text \<open>\<^verbatim>\<open>mipi_dbi_typec3_command\<close>.\<close>

definition mipi_dbi_typec3_command ::
  "mipi_dbi \<Rightarrow> u8 \<Rightarrow> mem \<Rightarrow> nat \<Rightarrow> world \<Rightarrow> (int \<times> mem \<times> world) option" where
  "mipi_dbi_typec3_command mipi cmd par num w =
     (case mipi_dbi_command_is_read mipi cmd of
        None \<Rightarrow> None
      | Some True \<Rightarrow> Some (mipi_dbi_typec3_command_read mipi cmd par num w)
      | Some False \<Rightarrow>
          (let w1 = gpiod_set_value_cansleep 0 w;
               (ret, w2) = tinydrm_spi_transfer 8 (\<lambda>_. cmd) 1 w1
           in if ret \<noteq> 0 \<or> num = 0 then Some (ret, par, w2)
              else
                (let bpw = (if cmd = MIPI_DCS_WRITE_MEMORY_START \<and> \<not> swap_bytes mipi
                            then 16 else 8);
                     w3 = gpiod_set_value_cansleep 1 w2;
                     (ret, w4) = tinydrm_spi_transfer bpw par num w3
                 in Some (ret, par, w4))))"

subsection \<open>Initialisation\<close>

text \<open>\<^verbatim>\<open>devm_tinydrm_init\<close> and \<^verbatim>\<open>tinydrm_display_pipe_init\<close> are calls into the tinydrm core.\<close>

definition devm_tinydrm_init :: "world \<Rightarrow> int \<times> world" where
  "devm_tinydrm_init w = next_ret w"

definition tinydrm_display_pipe_init :: "world \<Rightarrow> int \<times> world" where
  "tinydrm_display_pipe_init w = next_ret w"

text \<open>\<^verbatim>\<open>mipi_dbi_init\<close>: the staging buffer is allocated, the two core calls are made, the
  rotation is stored. The C code works on the caller's struct, so what was stored before a
  failure stays stored.\<close>

definition mipi_dbi_init :: "mipi_dbi \<Rightarrow> nat \<Rightarrow> world \<Rightarrow> int \<times> mipi_dbi \<times> world" where
  "mipi_dbi_init mipi rot w =
     (let (ok, w1) = kmalloc w
      in if \<not> ok then (- ENOMEM, mipi, w1)
         else
           (let (ret, w2) = devm_tinydrm_init w1
            in if ret \<noteq> 0 then (ret, mipi, w2)
               else
                 (let (ret, w3) = tinydrm_display_pipe_init w2
                  in if ret \<noteq> 0 then (ret, mipi, w3)
                     else (0, mipi\<lparr>rotation := rot\<rparr>, w3))))"

text \<open>\<^verbatim>\<open>mipi_dbi_spi_init\<close>. \<open>little_endian\<close> is \<^verbatim>\<open>tinydrm_machine_little_endian()\<close>.\<close>

definition mipi_dbi_spi_init ::
  "spi_device \<Rightarrow> mipi_dbi \<Rightarrow> nat option \<Rightarrow> bool \<Rightarrow> nat \<Rightarrow> bool \<Rightarrow> world
     \<Rightarrow> int \<times> mipi_dbi \<times> world" where
  "mipi_dbi_spi_init spi_dev mipi dc_gpio wo rot little_endian w =
     (let mipi = mipi\<lparr>spi := spi_dev\<rparr>;
          mipi = mipi\<lparr>write_only := wo\<rparr>;
          mipi = mipi\<lparr>read_commands := Some mipi_dbi_dcs_read_commands\<rparr>;
          mipi = (case dc_gpio of
                    Some g \<Rightarrow> mipi\<lparr>command := Some Typec3_command, dc := Some g\<rparr>
                  | None \<Rightarrow> mipi\<lparr>command := Some Typec1_command\<rparr>);
          mipi = (if little_endian \<and> \<not> bpw_supported spi_dev 16
                  then mipi\<lparr>swap_bytes := True\<rparr> else mipi)
      in mipi_dbi_init mipi rot w)"

subsection \<open>Flushing a dirty rectangle\<close>

datatype pixel_format = DRM_FORMAT_RGB565 | DRM_FORMAT_XRGB8888 | DRM_FORMAT_other u32

text \<open>What the flush reads of \<^verbatim>\<open>struct drm_framebuffer\<close> and its CMA object.\<close>

record drm_framebuffer =
  fb_width :: nat
  fb_height :: nat
  fb_format :: pixel_format
  import_attach :: bool

text \<open>\<^verbatim>\<open>mipi_dbi_command_buf\<close> is declared in mipi-dbi.h and sends a command with its
  parameters through \<^verbatim>\<open>mipi->command\<close>; \<^verbatim>\<open>mipi_dbi_command\<close> is the macro that collects its
  arguments in a \<^verbatim>\<open>u8\<close> array first. For the flush both are calls out of the file.\<close>

definition mipi_dbi_command_buf :: "u8 \<Rightarrow> payload \<Rightarrow> world \<Rightarrow> int \<times> world" where
  "mipi_dbi_command_buf cmd p w =
     (let (r, w') = next_ret w in (r, emit (Command_buf cmd p r) w'))"

definition mipi_dbi_command :: "u8 \<Rightarrow> int list \<Rightarrow> world \<Rightarrow> int \<times> world" where
  "mipi_dbi_command cmd seq w = mipi_dbi_command_buf cmd (Params (map word_of_int seq)) w"

definition dma_buf_begin_cpu_access :: "world \<Rightarrow> int \<times> world" where
  "dma_buf_begin_cpu_access w =
     (let (r, w') = next_ret w in (r, emit (Dma_buf_begin_cpu_access r) w'))"

definition dma_buf_end_cpu_access :: "world \<Rightarrow> int \<times> world" where
  "dma_buf_end_cpu_access w =
     (let (r, w') = next_ret w in (r, emit (Dma_buf_end_cpu_access r) w'))"

definition tinydrm_enable_backlight :: "world \<Rightarrow> int \<times> world" where
  "tinydrm_enable_backlight w =
     (let (r, w') = next_ret w in (r, emit (Tinydrm_enable_backlight r) w'))"

definition msleep :: "nat \<Rightarrow> world \<Rightarrow> world" where
  "msleep ms w = emit (Msleep ms) w"

text \<open>\<^verbatim>\<open>mipi_dbi_buf_copy\<close>: the three copy helpers of tinydrm-helpers.c fill the staging
  buffer from the clip rectangle.\<close>

definition mipi_dbi_buf_copy ::
  "drm_framebuffer \<Rightarrow> drm_clip_rect \<Rightarrow> bool \<Rightarrow> world \<Rightarrow> int \<times> world" where
  "mipi_dbi_buf_copy fb clip swap w =
     (let (ret, w1) = (if import_attach fb then dma_buf_begin_cpu_access w else (0, w))
      in if import_attach fb \<and> ret \<noteq> 0 then (ret, w1)
         else
           (case fb_format fb of
              DRM_FORMAT_RGB565 \<Rightarrow>
                (let w2 = (if swap then emit (Tinydrm_swab16 clip) w1
                           else emit (Tinydrm_memcpy clip) w1)
                 in if import_attach fb then dma_buf_end_cpu_access w2 else (ret, w2))
            | DRM_FORMAT_XRGB8888 \<Rightarrow>
                (let w2 = emit (Tinydrm_xrgb8888_to_rgb565 clip swap) w1
                 in if import_attach fb then dma_buf_end_cpu_access w2 else (ret, w2))
            | DRM_FORMAT_other f \<Rightarrow> (- EINVAL, w1)))"

text \<open>C \<^verbatim>\<open>int\<close> arithmetic, wrapping at 32 bits, and the conversion of an \<^verbatim>\<open>int\<close> to
  \<^verbatim>\<open>size_t\<close>.\<close>

definition int_wrap :: "int \<Rightarrow> int" where
  "int_wrap i = sint (word_of_int i :: u32)"

definition size_t_of_int :: "int \<Rightarrow> nat" where
  "size_t_of_int i = unat (word_of_int i :: u64)"

text \<open>Modelled from the spec: \<^verbatim>\<open>tinydrm_merge_clips\<close> of tinydrm-helpers.c is not in the
  source. The flush takes the merged rectangle as given; the flag the helper returns is the
  spec's \<open>full := (x1,y1,x2,y2) == (0,0,width,height)\<close>.\<close>

definition tinydrm_merge_clips :: "drm_clip_rect \<Rightarrow> nat \<Rightarrow> nat \<Rightarrow> bool" where
  "tinydrm_merge_clips clip w h \<longleftrightarrow>
     x1 clip = 0 \<and> y1 clip = 0 \<and> unat (x2 clip) = w \<and> unat (y2 clip) = h"

text \<open>\<^verbatim>\<open>mipi_dbi_fb_dirty\<close>. \<open>dirty\<close> is what \<^verbatim>\<open>tinydrm_check_dirty\<close> returns, \<open>clip\<close> the merged
  rectangle. The device lock and the debug output are left out. The result is the return
  value, the device and the world.\<close>

definition mipi_dbi_fb_dirty ::
  "mipi_dbi \<Rightarrow> drm_framebuffer \<Rightarrow> bool \<Rightarrow> drm_clip_rect \<Rightarrow> world
     \<Rightarrow> int \<times> mipi_dbi \<times> world" where
  "mipi_dbi_fb_dirty mipi fb dirty clip w =
     (let swap = swap_bytes mipi
      in if \<not> dirty then (0, mipi, w)
         else
           (let full = tinydrm_merge_clips clip (fb_width fb) (fb_height fb);
                (ret, tr, w1) =
                  (if \<not> full \<or> swap \<or> fb_format fb = DRM_FORMAT_XRGB8888
                   then (let (r, w') = mipi_dbi_buf_copy fb clip swap w in (r, Tx_buf, w'))
                   else (0, Vaddr, w))
            in if ret \<noteq> 0 then (ret, mipi, w1)
               else
                 (let (r2, w2) = mipi_dbi_command MIPI_DCS_SET_COLUMN_ADDRESS
                        [drop_bit 8 (uint (x1 clip)) AND 0xFF, uint (x1 clip) AND 0xFF,
                         drop_bit 8 (uint (x2 clip)) AND 0xFF, (uint (x2 clip) - 1) AND 0xFF] w1;
                      (r3, w3) = mipi_dbi_command MIPI_DCS_SET_PAGE_ADDRESS
                        [drop_bit 8 (uint (y1 clip)) AND 0xFF, uint (y1 clip) AND 0xFF,
                         drop_bit 8 (uint (y2 clip)) AND 0xFF, (uint (y2 clip) - 1) AND 0xFF] w2;
                      (ret, w4) = mipi_dbi_command_buf MIPI_DCS_WRITE_MEMORY_START
                        (Stream tr (size_t_of_int (int_wrap (int_wrap
                           ((uint (x2 clip) - uint (x1 clip)) * (uint (y2 clip) - uint (y1 clip)))
                           * 2)))) w3
                  in if ret \<noteq> 0 then (ret, mipi, w4)
                     else if \<not> enabled mipi then
                       (let w5 = (if enable_delay_ms mipi \<noteq> 0
                                  then msleep (enable_delay_ms mipi) w4 else w4);
                            (ret, w6) = tinydrm_enable_backlight w5
                        in if ret \<noteq> 0 then (ret, mipi, w6)
                           else (ret, mipi\<lparr>enabled := True\<rparr>, w6))
                     else (ret, mipi, w4))))"

text \<open>A sequence of flushes on one device, each with its framebuffer, dirty flag and merged
  rectangle; the return values are collected.\<close>

fun flushes ::
  "(drm_framebuffer \<times> bool \<times> drm_clip_rect) list \<Rightarrow> mipi_dbi \<Rightarrow> world
     \<Rightarrow> int list \<times> mipi_dbi \<times> world" where
  "flushes [] mipi w = ([], mipi, w)"
| "flushes ((fb, dirty, clip) # rest) mipi w =
     (let (ret, mipi', w') = mipi_dbi_fb_dirty mipi fb dirty clip w;
          (rs, mipi'', w'') = flushes rest mipi' w'
      in (ret # rs, mipi'', w''))"

subsection \<open>Concrete devices and worlds\<close>

definition zero_mem :: mem where
  "zero_mem = (\<lambda>_. 0)"

definition mem_of_list :: "u8 list \<Rightarrow> mem" where
  "mem_of_list xs = (\<lambda>i. if i < length xs then xs ! i else 0)"

text \<open>An SPI master with 8-bit words only, and one that also has 9-bit words; both limit a
  transfer to \<open>cap\<close> bytes.\<close>

definition spi8 :: "nat \<Rightarrow> spi_device" where
  "spi8 cap = \<lparr>max_speed_hz = 32000000, bpw_supported = (\<lambda>b. b = 8),
               max_transfer_size = (\<lambda>m. min m cap)\<rparr>"

definition spi9 :: "nat \<Rightarrow> spi_device" where
  "spi9 cap = \<lparr>max_speed_hz = 32000000, bpw_supported = (\<lambda>b. b = 8 \<or> b = 9),
               max_transfer_size = (\<lambda>m. min m cap)\<rparr>"

text \<open>A zeroed \<^verbatim>\<open>struct mipi_dbi\<close> on a given SPI device, and a world in which nothing has
  happened yet and every call will succeed; \<open>reply\<close> is what the controller sends back.\<close>

definition mipi0 :: "spi_device \<Rightarrow> mipi_dbi" where
  "mipi0 s = \<lparr>spi = s, command = None, read_commands = None, dc = None, write_only = False,
              swap_bytes = False, enable_delay_ms = 0, rotation = 0, enabled = False,
              prepared = False\<rparr>"

definition world0 :: "u8 list \<Rightarrow> world" where
  "world0 reply = \<lparr>trace = [], rets = [], allocs = [], miso = mem_of_list reply\<rparr>"

subsection \<open>Observations on a trace\<close>

text \<open>The bytes a transfer puts on the wire are \<open>len\<close> many; a message's are those of its
  transfers.\<close>

fun wire_len :: "event \<Rightarrow> nat" where
  "wire_len (Spi_sync m r) = sum_list (map len m)"
| "wire_len _ = 0"

definition wire_total :: "event list \<Rightarrow> nat" where
  "wire_total es = sum_list (map wire_len es)"

text \<open>What the emulated packer puts on the wire, read off the loop: a chunk shorter than 8
  bytes is sent as 9 bytes, any other chunk of \<open>c\<close> bytes as \<open>c\<close> plus one byte for every
  round of the block loop; the input is cut into chunks of \<open>max_src_chunk\<close> bytes and a
  remainder. \<open>packed_len\<close> is the length the specification states: 9 bytes for every 8
  bytes or part of them.\<close>

definition spi1e_chunk_len :: "nat \<Rightarrow> nat" where
  "spi1e_chunk_len c = (if c < 8 then 9 else c + (c + 7) div 8)"

definition spi1e_max_src_chunk :: "nat \<Rightarrow> nat \<Rightarrow> nat" where
  "spi1e_max_src_chunk n max_chunk =
     (let m = min (max_chunk div 9 * 8) n in max 8 (m - m mod 8))"

definition spi1e_wire_bytes :: "nat \<Rightarrow> nat \<Rightarrow> nat" where
  "spi1e_wire_bytes n msc =
     (n div msc) * spi1e_chunk_len msc
       + (if n mod msc = 0 then 0 else spi1e_chunk_len (n mod msc))"

definition packed_len :: "nat \<Rightarrow> nat" where
  "packed_len n = (if n mod 8 \<noteq> 0 then (n + 7) div 8 * 9 else n div 8 * 9)"

text \<open>A message of the native path: one transfer of 9-bit words, each word with the control
  bit in bit 8. A message of the emulated path: one transfer of 8-bit words from a byte
  buffer.\<close>

fun native9 :: "int \<Rightarrow> event \<Rightarrow> bool" where
  "native9 dcv (Spi_sync [tr] r) =
     (bits_per_word tr = 9 \<and>
      (case tx_buf tr of TxWords ws \<Rightarrow> list_all (\<lambda>x. bit x 8 = (dcv \<noteq> 0)) ws | _ \<Rightarrow> False))"
| "native9 dcv _ = False"

fun emulated8 :: "event \<Rightarrow> bool" where
  "emulated8 (Spi_sync [tr] r) =
     (bits_per_word tr = 8 \<and> (case tx_buf tr of TxBytes bs \<Rightarrow> True | _ \<Rightarrow> False))"
| "emulated8 _ = False"

text \<open>The events of staging (the CPU-access brackets of an imported buffer and the three
  copy helpers) and of first-enable sequencing (the settle delay and the backlight call).\<close>

fun copy_event :: "event \<Rightarrow> bool" where
  "copy_event (Dma_buf_begin_cpu_access r) = True"
| "copy_event (Dma_buf_end_cpu_access r) = True"
| "copy_event (Tinydrm_swab16 c) = True"
| "copy_event (Tinydrm_memcpy c) = True"
| "copy_event (Tinydrm_xrgb8888_to_rgb565 c s) = True"
| "copy_event _ = False"

fun enable_event :: "event \<Rightarrow> bool" where
  "enable_event (Msleep d) = True"
| "enable_event (Tinydrm_enable_backlight r) = True"
| "enable_event _ = False"

text \<open>The status codes of the backlight-enable calls of a trace, in call order.\<close>

fun backlight_ret :: "event \<Rightarrow> int list" where
  "backlight_ret (Tinydrm_enable_backlight r) = [r]"
| "backlight_ret _ = []"

definition backlight_rets :: "event list \<Rightarrow> int list" where
  "backlight_rets es = concat (map backlight_ret es)"

text \<open>The address window as the specification words it: start and end-minus-one, each as
  high byte then low byte.\<close>

definition be16 :: "int \<Rightarrow> u8 list" where
  "be16 v = [word_of_int (drop_bit 8 v AND 0xFF), word_of_int (v AND 0xFF)]"

definition window_params :: "u16 \<Rightarrow> u16 \<Rightarrow> u8 list" where
  "window_params a b = be16 (uint a) @ be16 (uint b - 1)"

text \<open>A 320 by 240 framebuffer in RGB565 that the driver owns, and clip rectangles on it.\<close>

definition fb_qvga :: drm_framebuffer where
  "fb_qvga = \<lparr>fb_width = 320, fb_height = 240, fb_format = DRM_FORMAT_RGB565,
               import_attach = False\<rparr>"

definition clip_rect :: "u16 \<Rightarrow> u16 \<Rightarrow> u16 \<Rightarrow> u16 \<Rightarrow> drm_clip_rect" where
  "clip_rect a b c d = \<lparr>x1 = a, y1 = b, x2 = c, y2 = d\<rparr>"

section \<open>Properties\<close>

lemmas dcs_defs =
  MIPI_DCS_GET_DISPLAY_ID_def MIPI_DCS_GET_RED_CHANNEL_def MIPI_DCS_GET_GREEN_CHANNEL_def
  MIPI_DCS_GET_BLUE_CHANNEL_def MIPI_DCS_GET_DISPLAY_STATUS_def MIPI_DCS_GET_POWER_MODE_def
  MIPI_DCS_GET_ADDRESS_MODE_def MIPI_DCS_GET_PIXEL_FORMAT_def MIPI_DCS_GET_DISPLAY_MODE_def
  MIPI_DCS_GET_SIGNAL_MODE_def MIPI_DCS_GET_DIAGNOSTIC_RESULT_def
  MIPI_DCS_SET_COLUMN_ADDRESS_def MIPI_DCS_SET_PAGE_ADDRESS_def
  MIPI_DCS_WRITE_MEMORY_START_def MIPI_DCS_READ_MEMORY_START_def
  MIPI_DCS_READ_MEMORY_CONTINUE_def MIPI_DCS_GET_SCANLINE_def
  MIPI_DCS_GET_DISPLAY_BRIGHTNESS_def MIPI_DCS_GET_CONTROL_DISPLAY_def
  MIPI_DCS_GET_POWER_SAVE_def MIPI_DCS_GET_CABC_MIN_BRIGHTNESS_def
  MIPI_DCS_READ_DDB_START_def MIPI_DCS_READ_DDB_CONTINUE_def

subsection \<open>Command classification\<close>

lemma command_is_read_from_prefix:
  assumes "0 \<notin> set p" "length p \<le> 255" "i \<le> length p"
  shows "command_is_read_from (p @ 0 # rest) cmd i = Some (cmd \<in> set (drop i p))"
  using assms
proof (induction "length p - i" arbitrary: i)
  case 0
  then have i: "i = length p" by simp
  show ?case
    by (subst command_is_read_from.simps) (simp add: i)
next
  case (Suc k)
  then have lt: "i < length p" by simp
  with Suc.prems have nz: "p ! i \<noteq> 0" by (metis nth_mem)
  have IH: "command_is_read_from (p @ 0 # rest) cmd (i + 1) = Some (cmd \<in> set (drop (i + 1) p))"
    using Suc.hyps(1) [of "i + 1"] Suc.hyps(2) Suc.prems lt by simp
  have split: "drop i p = p ! i # drop (i + 1) p"
    using lt by (simp add: Cons_nth_drop_Suc)
  show ?case
    using lt nz IH Suc.prems(2)
    by (subst command_is_read_from.simps) (auto simp: nth_append split)
qed

text \<open>C6: classification is a function of the table and the command byte alone and always
  gives an answer. With the table \<open>p\<close>, terminator, \<open>rest\<close> (\<open>p\<close> without a zero and no longer
  than the 255 entries the loop visits), a byte is a read command exactly when it occurs in
  \<open>p\<close>; the terminator value itself is not a read; and the answer is the same when the table
  ends right behind the terminator, so nothing behind it is looked at.\<close>

theorem C6_command_classification:
  assumes "0 \<notin> set p" and "length p \<le> 255" and "read_commands mipi = Some (p @ 0 # rest)"
  shows "mipi_dbi_command_is_read mipi cmd = Some (cmd \<in> set p)
       \<and> mipi_dbi_command_is_read mipi 0 = Some False
       \<and> mipi_dbi_command_is_read (mipi\<lparr>read_commands := Some (p @ [0])\<rparr>) cmd
           = mipi_dbi_command_is_read mipi cmd"
  using assms command_is_read_from_prefix [of p 0 rest] command_is_read_from_prefix [of p 0 "[]"]
  by (simp add: mipi_dbi_command_is_read_def)

theorem C6_witness:
  "mipi_dbi_command_is_read
      ((mipi0 (spi8 4096))\<lparr>read_commands := Some mipi_dbi_dcs_read_commands\<rparr>)
      MIPI_DCS_GET_POWER_MODE = Some True
   \<and> mipi_dbi_command_is_read
      ((mipi0 (spi8 4096))\<lparr>read_commands := Some mipi_dbi_dcs_read_commands\<rparr>)
      MIPI_DCS_WRITE_MEMORY_START = Some False
   \<and> mipi_dbi_command_is_read
      ((mipi0 (spi8 4096))\<lparr>read_commands := Some mipi_dbi_dcs_read_commands\<rparr>) 0 = Some False"
  using
    C6_command_classification [of "butlast mipi_dbi_dcs_read_commands"
      "(mipi0 (spi8 4096))\<lparr>read_commands := Some mipi_dbi_dcs_read_commands\<rparr>" "[]"
      MIPI_DCS_GET_POWER_MODE]
    C6_command_classification [of "butlast mipi_dbi_dcs_read_commands"
      "(mipi0 (spi8 4096))\<lparr>read_commands := Some mipi_dbi_dcs_read_commands\<rparr>" "[]"
      MIPI_DCS_WRITE_MEMORY_START]
  by (simp add: mipi_dbi_dcs_read_commands_def dcs_defs)

subsection \<open>The read path\<close>

text \<open>C10: a read of length zero returns \<open>-EINVAL\<close> and leaves the caller's buffer and the
  world as they were, whatever the command and whether or not the device is write-only: the
  length is checked before the write-only flag.\<close>

theorem C10_zero_length_read:
  "mipi_dbi_typec3_command_read mipi cmd data 0 w = (- EINVAL, data, w)"
  by (simp add: mipi_dbi_typec3_command_read_def Let_def)

text \<open>C3, as stated, fails for the length zero: on a write-only device that read returns
  \<open>-EINVAL\<close>, not \<open>-EACCES\<close>.\<close>

theorem C3_counterexample:
  "write_only ((mipi0 (spi8 4096))\<lparr>write_only := True\<rparr>)
   \<and> fst (mipi_dbi_typec3_command_read ((mipi0 (spi8 4096))\<lparr>write_only := True\<rparr>)
          MIPI_DCS_GET_POWER_MODE zero_mem 0 (world0 [])) = - EINVAL
   \<and> fst (mipi_dbi_typec3_command_read ((mipi0 (spi8 4096))\<lparr>write_only := True\<rparr>)
          MIPI_DCS_GET_POWER_MODE zero_mem 0 (world0 [])) \<noteq> - EACCES"
  by (simp add: mipi_dbi_typec3_command_read_def Let_def EINVAL_def EACCES_def)

text \<open>C3, amended: on a write-only device every read of a length other than zero returns
  \<open>-EACCES\<close>, whatever the command byte, and issues no bus transfer: the world and the
  caller's buffer are unchanged.\<close>

theorem C3_write_only_read:
  assumes "write_only mipi" and "n \<noteq> 0"
  shows "mipi_dbi_typec3_command_read mipi cmd data n w = (- EACCES, data, w)"
  using assms by (simp add: mipi_dbi_typec3_command_read_def Let_def)

theorem C3_witness:
  "write_only ((mipi0 (spi8 4096))\<lparr>write_only := True\<rparr>) \<and> (3 :: nat) \<noteq> 0
   \<and> mipi_dbi_typec3_command_read ((mipi0 (spi8 4096))\<lparr>write_only := True\<rparr>)
        MIPI_DCS_GET_POWER_MODE zero_mem 3 (world0 [])
      = (- EACCES, zero_mem, world0 [])"
  using C3_write_only_read [of "(mipi0 (spi8 4096))\<lparr>write_only := True\<rparr>" 3
      MIPI_DCS_GET_POWER_MODE zero_mem "world0 []"]
  by simp

lemma top_bit_test: "(b AND (0x80 :: u8) \<noteq> 0) = bit b 7"
proof -
  have "(0x80 :: u8) = 2 ^ 7" by simp
  then show ?thesis by (simp only: and_exp_eq_0_iff_not_bit) simp
qed

lemma ucast_shift_or:
  "(ucast (push_bit k (ucast (a :: u8) :: u32) OR c) :: u8) = push_bit k a OR ucast c"
  by (rule bit_word_eqI) (auto simp: bit_simps)

lemma quirk_byte:
  "(ucast (push_bit 1 (ucast (a :: u8) :: u32) OR (if b AND (0x80 :: u8) \<noteq> 0 then 1 else 0)) :: u8)
     = push_bit 1 a OR (if bit b 7 then 1 else 0)"
  unfolding top_bit_test ucast_shift_or by simp


lemma typec3_read_quirk_result:
  assumes cmd: "cmd = MIPI_DCS_GET_DISPLAY_ID \<or> cmd = MIPI_DCS_GET_DISPLAY_STATUS"
    and ro: "\<not> write_only mipi" and n: "n = 3 \<or> n = 4"
    and ok: "fst (kmalloc w)" "fst (next_ret w) = 0"
  shows "\<exists>tr0 tr1 w'.
           mipi_dbi_typec3_command_read mipi cmd data n w =
             (0, (\<lambda>i. if i < n
                    then ucast (push_bit 1 (ucast (miso w i) :: u32)
                           OR (if miso w (i + 1) AND 0x80 \<noteq> 0 then 1 else 0))
                    else data i), w')
           \<and> trace w' = trace w @ [Gpiod_set_value 0, Spi_sync [tr0, tr1] 0]
           \<and> tx_buf tr0 = TxBytes [cmd] \<and> len tr0 = 1 \<and> rx_buf tr1 \<and> len tr1 = n + 1"
proof -
  obtain w1 where k: "kmalloc w = (True, w1)" using ok by (cases "kmalloc w") auto
  have w1: "trace w1 = trace w" "rets w1 = rets w" "miso w1 = miso w"
    using k by (auto simp: kmalloc_def split: list.splits)
  obtain w2 where r: "next_ret (emit (Gpiod_set_value 0) w1) = (0, w2)"
    and w2: "trace w2 = trace w @ [Gpiod_set_value 0]" "miso w2 = miso w"
    using ok w1 by (auto simp: next_ret_def emit_def split: list.splits)
  show ?thesis
    using cmd ro n k r w2
    by (auto simp: mipi_dbi_typec3_command_read_def Let_def spi_sync_def
        gpiod_set_value_cansleep_def emit_def)
qed

text \<open>C4: for the identification read and the status read on a device that can be read, a
  request of 3 or 4 bytes whose allocation and transfer succeed clocks in one byte more than
  requested and returns, at each index \<open>i\<close>, the raw byte \<open>i\<close> shifted left by one with the top
  bit of raw byte \<open>i + 1\<close> in its lowest position, cut to 8 bits; any other length returns
  \<open>-EINVAL\<close> with nothing transferred; and the raw bytes 0x82, 0x40, 0x10, 0x00 of a 3-byte
  identification read give 0x04, 0x80, 0x20.\<close>

theorem C4_read_quirk:
  assumes cmd: "cmd = MIPI_DCS_GET_DISPLAY_ID \<or> cmd = MIPI_DCS_GET_DISPLAY_STATUS"
    and ro: "\<not> write_only mipi"
  shows "((n = 3 \<or> n = 4) \<and> fst (kmalloc w) \<and> fst (next_ret w) = 0 \<longrightarrow>
            (case mipi_dbi_typec3_command_read mipi cmd data n w of (ret, data', w') \<Rightarrow>
               ret = 0
               \<and> (\<exists>tr0 tr1. trace w' = trace w @ [Gpiod_set_value 0, Spi_sync [tr0, tr1] 0]
                     \<and> tx_buf tr0 = TxBytes [cmd] \<and> len tr0 = 1
                     \<and> rx_buf tr1 \<and> len tr1 = n + 1)
               \<and> (\<forall>i<n. data' i = push_bit 1 (miso w i) OR (if bit (miso w (i + 1)) 7 then 1 else 0))
               \<and> (\<forall>i\<ge>n. data' i = data i)))
       \<and> (\<not> (n = 3 \<or> n = 4) \<longrightarrow>
            mipi_dbi_typec3_command_read mipi cmd data n w = (- EINVAL, data, w))
       \<and> map (fst (snd (mipi_dbi_typec3_command_read (mipi0 (spi8 4096)) MIPI_DCS_GET_DISPLAY_ID
                 zero_mem 3 (world0 [0x82, 0x40, 0x10, 0x00])))) [0, 1, 2]
           = [0x04, 0x80, 0x20]"
proof (intro conjI impI)
  assume ok: "(n = 3 \<or> n = 4) \<and> fst (kmalloc w) \<and> fst (next_ret w) = 0"
  from typec3_read_quirk_result [OF cmd ro, of n w data] ok
  obtain tr0 tr1 w' where
    res: "mipi_dbi_typec3_command_read mipi cmd data n w =
             (0, (\<lambda>i. if i < n
                    then ucast (push_bit 1 (ucast (miso w i) :: u32)
                           OR (if miso w (i + 1) AND 0x80 \<noteq> 0 then 1 else 0))
                    else data i), w')"
    and tr: "trace w' = trace w @ [Gpiod_set_value 0, Spi_sync [tr0, tr1] 0]"
      "tx_buf tr0 = TxBytes [cmd]" "len tr0 = 1" "rx_buf tr1" "len tr1 = n + 1"
    by blast
  have bytes: "\<forall>i<n. (\<lambda>i. if i < n
                    then ucast (push_bit 1 (ucast (miso w i) :: u32)
                           OR (if miso w (i + 1) AND 0x80 \<noteq> 0 then 1 else 0))
                    else data i) i
      = push_bit 1 (miso w i) OR (if bit (miso w (i + 1)) 7 then 1 else 0)"
    by (simp only: quirk_byte if_True split: if_split) blast
  show "case mipi_dbi_typec3_command_read mipi cmd data n w of (ret, data', w') \<Rightarrow>
               ret = 0
               \<and> (\<exists>tr0 tr1. trace w' = trace w @ [Gpiod_set_value 0, Spi_sync [tr0, tr1] 0]
                     \<and> tx_buf tr0 = TxBytes [cmd] \<and> len tr0 = 1
                     \<and> rx_buf tr1 \<and> len tr1 = n + 1)
               \<and> (\<forall>i<n. data' i = push_bit 1 (miso w i) OR (if bit (miso w (i + 1)) 7 then 1 else 0))
               \<and> (\<forall>i\<ge>n. data' i = data i)"
    unfolding res prod.case
    using tr bytes by (intro conjI) (blast, blast, blast, simp)
next
  assume "\<not> (n = 3 \<or> n = 4)"
  then show "mipi_dbi_typec3_command_read mipi cmd data n w = (- EINVAL, data, w)"
    using cmd ro by (auto simp: mipi_dbi_typec3_command_read_def Let_def)
next
  show "map (fst (snd (mipi_dbi_typec3_command_read (mipi0 (spi8 4096)) MIPI_DCS_GET_DISPLAY_ID
                 zero_mem 3 (world0 [0x82, 0x40, 0x10, 0x00])))) [0, 1, 2]
           = [0x04, 0x80, 0x20]"
    by (simp add: mipi_dbi_typec3_command_read_def Let_def spi_sync_def kmalloc_def next_ret_def
        gpiod_set_value_cansleep_def emit_def mipi0_def world0_def mem_of_list_def
        MIPI_DCS_GET_DISPLAY_ID_def MIPI_DCS_GET_DISPLAY_STATUS_def)
qed


theorem C4_witness:
  "map (fst (snd (mipi_dbi_typec3_command_read (mipi0 (spi8 4096)) MIPI_DCS_GET_DISPLAY_STATUS
          zero_mem 4 (world0 [0x01, 0x02, 0x83, 0x04, 0x80])))) [0, 1, 2, 3]
     = [0x02, 0x05, 0x06, 0x09]
   \<and> mipi_dbi_typec3_command_read (mipi0 (spi8 4096)) MIPI_DCS_GET_DISPLAY_STATUS
          zero_mem 5 (world0 [0x01, 0x02, 0x83, 0x04, 0x80])
     = (- EINVAL, zero_mem, world0 [0x01, 0x02, 0x83, 0x04, 0x80])"
proof -
  have h1: "MIPI_DCS_GET_DISPLAY_STATUS = MIPI_DCS_GET_DISPLAY_ID
            \<or> MIPI_DCS_GET_DISPLAY_STATUS = MIPI_DCS_GET_DISPLAY_STATUS" by simp
  have h2: "\<not> write_only (mipi0 (spi8 4096))" by (simp add: mipi0_def)
  have ok: "fst (kmalloc (world0 [0x01, 0x02, 0x83, 0x04, 0x80]))"
    "fst (next_ret (world0 [0x01, 0x02, 0x83, 0x04, 0x80])) = 0"
    by (simp_all add: world0_def kmalloc_def next_ret_def)
  have m: "map (miso (world0 [0x01, 0x02, 0x83, 0x04, 0x80])) [0, 1, 2, 3, 4]
           = [0x01, 0x02, 0x83, 0x04, 0x80]"
    by (simp add: world0_def mem_of_list_def)
  let ?W = "world0 [0x01, 0x02, 0x83, 0x04, 0x80]"
  let ?r = "mipi_dbi_typec3_command_read (mipi0 (spi8 4096)) MIPI_DCS_GET_DISPLAY_STATUS
          zero_mem 4 ?W"
  have b: "\<forall>i<4. fst (snd ?r) i
             = push_bit 1 (miso ?W i) OR (if bit (miso ?W (i + 1)) 7 then 1 else 0)"
    using C4_read_quirk [OF h1 h2, of 4 ?W zero_mem] ok
    by (simp add: case_prod_beta)
  have b0: "fst (snd ?r) 0 = 0x02"
    using b [rule_format, of 0] by (simp add: world0_def mem_of_list_def)
  have b1: "fst (snd ?r) 1 = 0x05"
    using b [rule_format, of 1] by (simp add: world0_def mem_of_list_def)
  have b2: "fst (snd ?r) 2 = 0x06"
    using b [rule_format, of 2] by (simp add: world0_def mem_of_list_def)
  have b3: "fst (snd ?r) 3 = 0x09"
    using b [rule_format, of 3] by (simp add: world0_def mem_of_list_def)
  have e: "mipi_dbi_typec3_command_read (mipi0 (spi8 4096)) MIPI_DCS_GET_DISPLAY_STATUS
          zero_mem 5 ?W = (- EINVAL, zero_mem, ?W)"
    using C4_read_quirk [OF h1 h2, of 5 ?W zero_mem] by simp
  show ?thesis
    using b0 b1 b2 b3 e by simp
qed

subsection \<open>The emulated 9-bit packer\<close>

text \<open>C7: with the control bit "command" the packer accepts one byte only. Any other length
  returns \<open>-EINVAL\<close> and the world is unchanged. One byte, with room for a block and memory
  for it, is sent as one transfer of 9 bytes: eight zero bytes and then the byte.\<close>

theorem C7_command_byte_block:
  shows "(n \<noteq> 1 \<longrightarrow> mipi_dbi_spi1e_transfer mipi 0 src n max_chunk w = Some (- EINVAL, w))
       \<and> (n = 1 \<and> 9 \<le> max_transfer_size (spi mipi) max_chunk \<and> fst (kzalloc w) \<longrightarrow>
            (\<exists>w'. mipi_dbi_spi1e_transfer mipi 0 src n max_chunk w = Some (fst (next_ret w), w')
               \<and> trace w' = trace w @
                   [Spi_sync [\<lparr>bits_per_word = 8, speed_hz = 0,
                               tx_buf = TxBytes [0, 0, 0, 0, 0, 0, 0, 0, src 0],
                               rx_buf = False, len = 9\<rparr>] (fst (next_ret w))]))"
proof (intro conjI impI)
  assume "n \<noteq> 1"
  then show "mipi_dbi_spi1e_transfer mipi 0 src n max_chunk w = Some (- EINVAL, w)"
    by (simp add: mipi_dbi_spi1e_transfer_def Let_def)
next
  assume a: "n = 1 \<and> 9 \<le> max_transfer_size (spi mipi) max_chunk \<and> fst (kzalloc w)"
  obtain w1 where k: "kzalloc w = (True, w1)" using a by (cases "kzalloc w") auto
  have w1: "trace w1 = trace w" "rets w1 = rets w"
    using k by (auto simp: kzalloc_def kmalloc_def split: list.splits)
  have nr: "fst (next_ret w1) = fst (next_ret w)" "trace (snd (next_ret w1)) = trace w"
    using w1 by (auto simp: next_ret_def split: list.splits)
  have blk: "(replicate 9 (0 :: u8)) [8 := src 0] = [0, 0, 0, 0, 0, 0, 0, 0, src 0]"
    by (simp add: numeral_eq_Suc)
  show "\<exists>w'. mipi_dbi_spi1e_transfer mipi 0 src n max_chunk w = Some (fst (next_ret w), w')
               \<and> trace w' = trace w @
                   [Spi_sync [\<lparr>bits_per_word = 8, speed_hz = 0,
                               tx_buf = TxBytes [0, 0, 0, 0, 0, 0, 0, 0, src 0],
                               rx_buf = False, len = 9\<rparr>] (fst (next_ret w))]"
    using a k nr
    by (cases "next_ret w1")
       (simp add: mipi_dbi_spi1e_transfer_def Let_def blk spi_sync_def emit_def)
qed

theorem C7_witness:
  "mipi_dbi_spi1e_transfer (mipi0 (spi8 4096)) 0 (mem_of_list [0x2A, 0x11]) 2 4096 (world0 [])
     = Some (- EINVAL, world0 [])
   \<and> (\<exists>w'. mipi_dbi_spi1e_transfer (mipi0 (spi8 4096)) 0 (mem_of_list [0x2A]) 1 4096 (world0 [])
             = Some (0, w')
          \<and> trace w' = [Spi_sync [\<lparr>bits_per_word = 8, speed_hz = 0,
                               tx_buf = TxBytes [0, 0, 0, 0, 0, 0, 0, 0, 0x2A],
                               rx_buf = False, len = 9\<rparr>] 0])"
  using C7_command_byte_block [of 2 "mipi0 (spi8 4096)" "mem_of_list [0x2A, 0x11]" 4096 "world0 []"]
    C7_command_byte_block [of 1 "mipi0 (spi8 4096)" "mem_of_list [0x2A]" 4096 "world0 []"]
  by (simp add: mipi0_def spi8_def world0_def kzalloc_def kmalloc_def next_ret_def mem_of_list_def)

subsection \<open>Transport selection\<close>

lemma trace_world0: "trace (world0 r) = []" by (simp add: world0_def)

lemma spi_sync_trace: "spi_sync m w = (r, w') \<Longrightarrow> trace w' = trace w @ [Spi_sync m r]"
  by (auto simp: spi_sync_def next_ret_def emit_def split: list.splits)

lemma kmalloc_trace: "kmalloc w = (ok, w') \<Longrightarrow> trace w' = trace w"
  by (auto simp: kmalloc_def split: list.splits)

lemma spi1_loop_0: "spi1_loop src pos 0 msc dcv w = Some (0, w)"
  by (subst spi1_loop.simps) simp

lemma spi1e_loop_0: "spi1e_loop src pos 0 msc w = Some (0, w)"
  by (subst spi1e_loop.simps) simp

text \<open>Both transfer loops end: the emulated one always, the native one when a transfer holds
  at least one word.\<close>

lemma spi1e_loop_returns:
  assumes "0 < msc"
  shows "\<exists>y. spi1e_loop src pos n msc w = Some y"
proof (induction n arbitrary: pos w rule: less_induct)
  case (less n)
  show ?case
  proof (cases "n = 0")
    case True
    then show ?thesis by (simp add: spi1e_loop_0)
  next
    case False
    then have lt: "n - min n msc < n" using assms by simp
    show ?thesis
    proof (cases "min n msc < 8")
      case True
      let ?tr = "\<lparr>bits_per_word = 8, speed_hz = 0,
                   tx_buf = TxBytes (cpu_to_be64 (shift_partial src pos 0 (min n msc) 0) @ [0x00]),
                   rx_buf = False, len = 8 + 1\<rparr>"
      obtain ret w1 where s: "spi_sync [?tr] w = (ret, w1)" by (cases "spi_sync [?tr] w")
      have "spi1e_loop src pos n msc w =
              (if ret \<noteq> 0 then Some (ret, w1)
               else spi1e_loop src (pos + min n msc) (n - min n msc) msc w1)"
        using False True s by (subst spi1e_loop.simps) (simp add: Let_def)
      with less.IH [OF lt, of "pos + min n msc" w1] show ?thesis by auto
    next
      case c: False
      obtain dst added where p: "pack_blocks src pos 0 (min n msc) = (dst, added)"
        by (cases "pack_blocks src pos 0 (min n msc)")
      let ?tr = "\<lparr>bits_per_word = 8, speed_hz = 0, tx_buf = TxBytes dst,
                   rx_buf = False, len = min n msc + added\<rparr>"
      obtain ret w1 where s: "spi_sync [?tr] w = (ret, w1)" by (cases "spi_sync [?tr] w")
      have "spi1e_loop src pos n msc w =
              (if ret \<noteq> 0 then Some (ret, w1)
               else spi1e_loop src (pos + 8 * added) (n - min n msc) msc w1)"
        using False c p s by (subst spi1e_loop.simps) (simp add: Let_def)
      with less.IH [OF lt, of "pos + 8 * added" w1] show ?thesis by auto
    qed
  qed
qed

lemma spi1e_transfer_returns:
  "\<exists>y. mipi_dbi_spi1e_transfer mipi dcv src n mc w = Some y"
proof -
  let ?m = "min (max_transfer_size (spi mipi) mc div 9 * 8) n"
  have "0 < max 8 (?m - ?m mod 8)" by (simp add: less_max_iff_disj)
  from spi1e_loop_returns [OF this]
  have "\<exists>y. spi1e_loop src 0 n (max 8 (?m - ?m mod 8)) v = Some y" for v .
  then show ?thesis
    by (auto simp: mipi_dbi_spi1e_transfer_def Let_def split: prod.splits)
qed

lemma spi1_loop_returns:
  assumes "0 < msc"
  shows "\<exists>y. spi1_loop src pos n msc dcv w = Some y"
proof (induction n arbitrary: pos w rule: less_induct)
  case (less n)
  show ?case
  proof (cases "n = 0")
    case True
    then show ?thesis by (simp add: spi1_loop_0)
  next
    case False
    then have lt: "n - min n msc < n" using assms by simp
    let ?tr = "\<lparr>bits_per_word = 9, speed_hz = 0,
                 tx_buf = TxWords (map (\<lambda>i. if dcv \<noteq> 0
                               then (ucast (src (pos + i)) :: u16) OR 0x0100
                               else ucast (src (pos + i))) [0..<min n msc]),
                 rx_buf = False, len = min n msc\<rparr>"
    obtain ret w1 where s: "spi_sync [?tr] w = (ret, w1)" by (cases "spi_sync [?tr] w")
    have "spi1_loop src pos n msc dcv w =
            (if ret \<noteq> 0 then Some (ret, w1)
             else spi1_loop src (pos + min n msc) (n - min n msc) msc dcv w1)"
      using False s by (subst spi1_loop.simps) (simp add: Let_def)
    with less.IH [OF lt, of "pos + min n msc" w1] show ?thesis by auto
  qed
qed

lemma spi1_transfer_returns:
  assumes "bpw_supported (spi mipi) 9" and "2 \<le> max_transfer_size (spi mipi) mc \<or> n = 0"
  shows "\<exists>y. mipi_dbi_spi1_transfer mipi dcv buf n mc w = Some y"
proof (cases "n = 0")
  case True
  then show ?thesis
    using assms(1)
    by (auto simp: mipi_dbi_spi1_transfer_def Let_def spi1_loop_0 split: prod.splits)
next
  case False
  with assms(2) have "0 < min (max_transfer_size (spi mipi) mc div 2) n" by auto
  from spi1_loop_returns [OF this]
  have "\<exists>y. spi1_loop buf 0 n (min (max_transfer_size (spi mipi) mc div 2) n) dcv v = Some y"
    for v .
  then show ?thesis
    using assms(1)
    by (auto simp: mipi_dbi_spi1_transfer_def Let_def split: prod.splits)
qed

text \<open>What each loop puts on the trace.\<close>

lemma spi1e_loop_emulated:
  assumes "spi1e_loop src pos n msc w = Some y"
  shows "\<exists>new. trace (snd y) = trace w @ new \<and> list_all emulated8 new"
proof (induction src pos n msc w y rule: spi1e_loop.raw_induct)
  case (1 loop src pos n msc w y)
  show ?case
  proof (cases "n = 0")
    case True
    with 1(2) show ?thesis by auto
  next
    case n: False
    let ?chunk = "min n msc"
    show ?thesis
    proof (cases "?chunk < 8")
      case True
      let ?tr = "\<lparr>bits_per_word = 8, speed_hz = 0,
                   tx_buf = TxBytes (cpu_to_be64 (shift_partial src pos 0 ?chunk 0) @ [0x00]),
                   rx_buf = False, len = 8 + 1\<rparr>"
      obtain ret w1 where s: "spi_sync [?tr] w = (ret, w1)" by (cases "spi_sync [?tr] w")
      have t1: "trace w1 = trace w @ [Spi_sync [?tr] ret]" by (rule spi_sync_trace [OF s])
      have e: "emulated8 (Spi_sync [?tr] ret)" by simp
      show ?thesis
      proof (cases "ret = 0")
        case r: True
        with 1(2) n True s have "loop src (pos + ?chunk) (n - ?chunk) msc w1 = Some y"
          by (simp add: Let_def)
        from 1(1) [OF this] obtain new where "trace (snd y) = trace w1 @ new" "list_all emulated8 new"
          by blast
        with t1 e show ?thesis by simp
      next
        case False
        with 1(2) n True s have "snd y = w1" by (auto simp add: Let_def)
        with t1 e show ?thesis by simp
      qed
    next
      case c: False
      obtain dst added where p: "pack_blocks src pos 0 ?chunk = (dst, added)"
        by (cases "pack_blocks src pos 0 ?chunk")
      let ?tr = "\<lparr>bits_per_word = 8, speed_hz = 0, tx_buf = TxBytes dst,
                   rx_buf = False, len = ?chunk + added\<rparr>"
      obtain ret w1 where s: "spi_sync [?tr] w = (ret, w1)" by (cases "spi_sync [?tr] w")
      have t1: "trace w1 = trace w @ [Spi_sync [?tr] ret]" by (rule spi_sync_trace [OF s])
      have e: "emulated8 (Spi_sync [?tr] ret)" by simp
      show ?thesis
      proof (cases "ret = 0")
        case r: True
        with 1(2) n c s p have "loop src (pos + 8 * added) (n - ?chunk) msc w1 = Some y"
          by (simp add: Let_def)
        from 1(1) [OF this] obtain new where "trace (snd y) = trace w1 @ new" "list_all emulated8 new"
          by blast
        with t1 e show ?thesis by simp
      next
        case False
        with 1(2) n c s p have "snd y = w1" by (auto simp add: Let_def)
        with t1 e show ?thesis by simp
      qed
    qed
  qed
qed (fact assms)

lemma spi1e_transfer_emulated:
  assumes "mipi_dbi_spi1e_transfer mipi dcv src n mc w = Some y"
  shows "\<exists>new. trace (snd y) = trace w @ new \<and> list_all emulated8 new"
proof -
  let ?mc = "max_transfer_size (spi mipi) mc"
  show ?thesis
  proof (cases "?mc < 9 \<or> (dcv = 0 \<and> n \<noteq> 1)")
    case True
    with assms have "snd y = w" by (auto simp: mipi_dbi_spi1e_transfer_def Let_def split: if_splits)
    then show ?thesis by simp
  next
    case False
    show ?thesis
    proof (cases "dcv = 0")
      case True
      obtain ok w1 where k: "kzalloc w = (ok, w1)" by (cases "kzalloc w")
      then have t: "trace w1 = trace w" by (auto simp: kzalloc_def dest: kmalloc_trace)
      show ?thesis
      proof (cases ok)
        case True
        let ?tr = "\<lparr>bits_per_word = 8, speed_hz = 0, tx_buf = TxBytes ((replicate 9 0) [8 := src 0]),
                               rx_buf = False, len = 9\<rparr>"
        obtain ret w2 where s: "spi_sync [?tr] w1 = (ret, w2)" by (cases "spi_sync [?tr] w1")
        from assms False \<open>dcv = 0\<close> k True s have "snd y = w2"
          by (auto simp: mipi_dbi_spi1e_transfer_def Let_def)
        with spi_sync_trace [OF s] t show ?thesis by simp
      next
        case f: False
        with assms False \<open>dcv = 0\<close> k have "snd y = w1"
          by (auto simp: mipi_dbi_spi1e_transfer_def Let_def)
        with t show ?thesis by simp
      qed
    next
      case d: False
      obtain ok w1 where k: "kmalloc w = (ok, w1)" by (cases "kmalloc w")
      then have t: "trace w1 = trace w" by (rule kmalloc_trace)
      show ?thesis
      proof (cases ok)
        case True
        with assms False d k obtain msc where "spi1e_loop src 0 n msc w1 = Some y"
          by (auto simp: mipi_dbi_spi1e_transfer_def Let_def)
        from spi1e_loop_emulated [OF this] t show ?thesis by simp
      next
        case f: False
        with assms False d k have "snd y = w1"
          by (auto simp: mipi_dbi_spi1e_transfer_def Let_def)
        with t show ?thesis by simp
      qed
    qed
  qed
qed

lemma spi1_loop_native:
  assumes "spi1_loop src pos n msc dcv w = Some y"
  shows "\<exists>new. trace (snd y) = trace w @ new \<and> list_all (native9 dcv) new"
proof (induction src pos n msc dcv w y rule: spi1_loop.raw_induct)
  case (1 loop src pos n msc dcv w y)
  show ?case
  proof (cases "n = 0")
    case True
    with 1(2) show ?thesis by auto
  next
    case False
    let ?chunk = "min n msc"
    let ?tr = "\<lparr>bits_per_word = 9, speed_hz = 0,
                 tx_buf = TxWords (map (\<lambda>i. if dcv \<noteq> 0 then (ucast (src (pos + i)) :: u16) OR 0x0100
                               else ucast (src (pos + i))) [0..<?chunk]),
                 rx_buf = False, len = ?chunk\<rparr>"
    obtain ret w1 where s: "spi_sync [?tr] w = (ret, w1)" by (cases "spi_sync [?tr] w")
    have nat: "native9 dcv (Spi_sync [?tr] ret)"
      by (auto simp: list_all_iff bit_simps dest: bit_imp_le_length)
    have t1: "trace w1 = trace w @ [Spi_sync [?tr] ret]" by (rule spi_sync_trace [OF s])
    show ?thesis
    proof (cases "ret = 0")
      case True
      with 1(2) False s have "loop src (pos + ?chunk) (n - ?chunk) msc dcv w1 = Some y"
        by (simp add: Let_def)
      from 1(1) [OF this] obtain new where "trace (snd y) = trace w1 @ new" "list_all (native9 dcv) new"
        by blast
      with t1 nat show ?thesis by simp
    next
      case False
      with 1(2) \<open>n \<noteq> 0\<close> s have "snd y = w1" by (auto simp add: Let_def)
      with t1 nat show ?thesis by simp
    qed
  qed
qed (fact assms)

lemma spi1_transfer_native:
  assumes "bpw_supported (spi mipi) 9"
    and "mipi_dbi_spi1_transfer mipi dcv buf n mc w = Some y"
  shows "\<exists>new. trace (snd y) = trace w @ new \<and> list_all (native9 dcv) new"
proof -
  obtain ok w1 where k: "kmalloc w = (ok, w1)" by (cases "kmalloc w")
  then have t: "trace w1 = trace w" by (rule kmalloc_trace)
  show ?thesis
  proof (cases ok)
    case True
    with assms k obtain msc where "spi1_loop buf 0 n msc dcv w1 = Some y"
      by (auto simp: mipi_dbi_spi1_transfer_def Let_def)
    from spi1_loop_native [OF this] t show ?thesis by simp
  next
    case False
    with assms k have "snd y = w1"
      by (auto simp: mipi_dbi_spi1_transfer_def Let_def)
    with t show ?thesis by simp
  qed
qed

lemma mipi_dbi_init_fields:
  assumes "mipi_dbi_init m rot w = (ret, m', w')"
  shows "spi m' = spi m \<and> command m' = command m \<and> dc m' = dc m
       \<and> read_commands m' = read_commands m \<and> write_only m' = write_only m
       \<and> swap_bytes m' = swap_bytes m"
  using assms
  by (auto simp: mipi_dbi_init_def Let_def split: prod.splits if_splits)

text \<open>C5: after \<^verbatim>\<open>mipi_dbi_spi_init\<close> the command function is the 8-bit one with a D/C line
  whenever a D/C line was given, whatever the SPI master can do, and the 9-bit one otherwise.
  The 9-bit transfer then sends native 9-bit words (control bit in bit 8 of each word) if the
  master declares 9-bit words, and is the byte-packed emulation, with 8-bit transfers only,
  if it does not. Either way the transfer returns (the native one given room for one word
  per transfer).\<close>

theorem C5_transport_selection:
  assumes init: "mipi_dbi_spi_init spi_dev mipi dc_gpio wo rot le w = (ret, mipi', w')"
  shows "command mipi' = Some (if dc_gpio = None then Typec1_command else Typec3_command)
       \<and> (bpw_supported spi_dev 9 \<longrightarrow>
            (\<forall>dcv buf n mc v.
               (2 \<le> max_transfer_size spi_dev mc \<or> n = 0 \<longrightarrow>
                  (\<exists>y. mipi_dbi_spi1_transfer mipi' dcv buf n mc v = Some y))
               \<and> (\<forall>y. mipi_dbi_spi1_transfer mipi' dcv buf n mc v = Some y \<longrightarrow>
                     (\<exists>new. trace (snd y) = trace v @ new \<and> list_all (native9 dcv) new))))
       \<and> (\<not> bpw_supported spi_dev 9 \<longrightarrow>
            (\<forall>dcv buf n mc v.
               mipi_dbi_spi1_transfer mipi' dcv buf n mc v
                 = mipi_dbi_spi1e_transfer mipi' dcv buf n mc v
               \<and> (\<exists>y. mipi_dbi_spi1e_transfer mipi' dcv buf n mc v = Some y)
               \<and> (\<forall>y. mipi_dbi_spi1e_transfer mipi' dcv buf n mc v = Some y \<longrightarrow>
                     (\<exists>new. trace (snd y) = trace v @ new \<and> list_all emulated8 new))))"
proof -
  obtain m0 where m0: "mipi_dbi_init m0 rot w = (ret, mipi', w')"
    and s0: "spi m0 = spi_dev"
    and c0: "command m0 = Some (if dc_gpio = None then Typec1_command else Typec3_command)"
    using init by (cases dc_gpio) (auto simp: mipi_dbi_spi_init_def Let_def)
  from mipi_dbi_init_fields [OF m0] s0 c0
  have s: "spi mipi' = spi_dev"
    and c: "command mipi' = Some (if dc_gpio = None then Typec1_command else Typec3_command)"
    by simp_all
  show ?thesis
  proof (intro conjI impI allI)
    show "command mipi' = Some (if dc_gpio = None then Typec1_command else Typec3_command)"
      by (rule c)
  next
    fix dcv buf n mc v
    assume "bpw_supported spi_dev 9" "2 \<le> max_transfer_size spi_dev mc \<or> n = (0 :: nat)"
    then show "\<exists>y. mipi_dbi_spi1_transfer mipi' dcv buf n mc v = Some y"
      using spi1_transfer_returns [of mipi' mc n dcv buf v] s by simp
  next
    fix dcv buf n mc v y
    assume "bpw_supported spi_dev 9" "mipi_dbi_spi1_transfer mipi' dcv buf n mc v = Some y"
    then show "\<exists>new. trace (snd y) = trace v @ new \<and> list_all (native9 dcv) new"
      using spi1_transfer_native [of mipi' dcv buf n mc v y] s by simp
  next
    fix dcv buf n mc v
    assume "\<not> bpw_supported spi_dev 9"
    then show "mipi_dbi_spi1_transfer mipi' dcv buf n mc v
                 = mipi_dbi_spi1e_transfer mipi' dcv buf n mc v"
      using s by (simp add: mipi_dbi_spi1_transfer_def)
  next
    fix dcv buf n mc v
    show "\<exists>y. mipi_dbi_spi1e_transfer mipi' dcv buf n mc v = Some y"
      by (rule spi1e_transfer_returns)
  next
    fix dcv buf n mc v y
    assume "mipi_dbi_spi1e_transfer mipi' dcv buf n mc v = Some y"
    then show "\<exists>new. trace (snd y) = trace v @ new \<and> list_all emulated8 new"
      by (rule spi1e_transfer_emulated)
  qed
qed

lemmas init_eval = mipi_dbi_spi_init_def mipi_dbi_init_def Let_def mipi0_def spi8_def spi9_def
  world0_def kmalloc_def kzalloc_def devm_tinydrm_init_def tinydrm_display_pipe_init_def next_ret_def

theorem C5_witness:
  "command (fst (snd (mipi_dbi_spi_init (spi9 4096) (mipi0 (spi9 4096)) (Some 25) False 0 True
       (world0 [])))) = Some Typec3_command
   \<and> command (fst (snd (mipi_dbi_spi_init (spi8 4096) (mipi0 (spi8 4096)) None False 0 True
       (world0 [])))) = Some Typec1_command
   \<and> (\<exists>y. mipi_dbi_spi1_transfer
              (fst (snd (mipi_dbi_spi_init (spi9 4096) (mipi0 (spi9 4096)) None False 0 True
                 (world0 []))))
              1 (mem_of_list [0x00, 0xEF]) 2 4096 (world0 []) = Some y
          \<and> trace (snd y) \<noteq> [] \<and> list_all (native9 1) (trace (snd y)))
   \<and> (\<exists>y. mipi_dbi_spi1_transfer
              (fst (snd (mipi_dbi_spi_init (spi8 4096) (mipi0 (spi8 4096)) None False 0 True
                 (world0 []))))
              0 (mem_of_list [0x2A]) 1 4096 (world0 []) = Some y
          \<and> trace (snd y) \<noteq> [] \<and> list_all emulated8 (trace (snd y)))"
proof -
  let ?i3 = "mipi_dbi_spi_init (spi9 4096) (mipi0 (spi9 4096)) (Some 25) False 0 True (world0 [])"
  let ?i9 = "mipi_dbi_spi_init (spi9 4096) (mipi0 (spi9 4096)) None False 0 True (world0 [])"
  let ?i8 = "mipi_dbi_spi_init (spi8 4096) (mipi0 (spi8 4096)) None False 0 True (world0 [])"
  have e3: "?i3 = (fst ?i3, fst (snd ?i3), snd (snd ?i3))"
    and e9: "?i9 = (fst ?i9, fst (snd ?i9), snd (snd ?i9))"
    and e8: "?i8 = (fst ?i8, fst (snd ?i8), snd (snd ?i8))" by simp_all
  have b9: "bpw_supported (spi9 4096) 9" and b8: "\<not> bpw_supported (spi8 4096) 9"
    by (simp_all add: spi9_def spi8_def)
  have r9: "\<exists>y. mipi_dbi_spi1_transfer (fst (snd ?i9)) 1 (mem_of_list [0x00, 0xEF]) 2 4096 (world0 [])
               = Some y \<and> trace (snd y) \<noteq> []"
    by (simp add: init_eval mipi_dbi_spi1_transfer_def spi1_loop.simps [of _ _ 2]
        spi1_loop_0 spi_sync_def emit_def)
  have r8: "\<exists>y. mipi_dbi_spi1_transfer (fst (snd ?i8)) 0 (mem_of_list [0x2A]) 1 4096 (world0 [])
               = Some y \<and> trace (snd y) \<noteq> []"
    by (simp add: init_eval mipi_dbi_spi1_transfer_def mipi_dbi_spi1e_transfer_def
        spi_sync_def emit_def)
  note T3 = C5_transport_selection [OF e3]
  note T9 = C5_transport_selection [OF e9]
  note T8 = C5_transport_selection [OF e8]
  have c3: "command (fst (snd ?i3)) = Some Typec3_command"
    using T3 [THEN conjunct1] by simp
  have c8: "command (fst (snd ?i8)) = Some Typec1_command"
    using T8 [THEN conjunct1] by simp
  from r9 obtain y9 where
    y9: "mipi_dbi_spi1_transfer (fst (snd ?i9)) 1 (mem_of_list [0x00, 0xEF]) 2 4096 (world0 [])
           = Some y9" "trace (snd y9) \<noteq> []"
    by blast
  note N9 = T9 [THEN conjunct2, THEN conjunct1, THEN mp, OF b9, THEN spec, THEN spec, THEN spec,
      THEN spec, THEN spec, THEN conjunct2, THEN spec, THEN mp, OF y9(1)]
  then have n9: "list_all (native9 1) (trace (snd y9))"
    by (auto simp: trace_world0)
  from r8 obtain y8 where
    y8: "mipi_dbi_spi1_transfer (fst (snd ?i8)) 0 (mem_of_list [0x2A]) 1 4096 (world0 [])
           = Some y8" "trace (snd y8) \<noteq> []"
    by blast
  note N8 = T8 [THEN conjunct2, THEN conjunct2, THEN mp, OF b8, THEN spec, THEN spec, THEN spec,
      THEN spec, THEN spec, of 0 "mem_of_list [0x2A]" 1 4096 "world0 []"]
  have q8: "mipi_dbi_spi1e_transfer (fst (snd ?i8)) 0 (mem_of_list [0x2A]) 1 4096 (world0 [])
              = Some y8"
    using N8 [THEN conjunct1] y8(1) by simp
  have n8: "list_all emulated8 (trace (snd y8))"
    using N8 [THEN conjunct2, THEN conjunct2, THEN spec, THEN mp, OF q8]
    by (auto simp: trace_world0)
  show ?thesis
    using c3 c8 y9 n9 y8 n8 by blast
qed

subsection \<open>The flush pipeline\<close>

lemmas flush_eval = mipi_dbi_fb_dirty_def mipi_dbi_buf_copy_def mipi_dbi_command_def
  mipi_dbi_command_buf_def tinydrm_enable_backlight_def tinydrm_merge_clips_def msleep_def
  emit_def next_ret_def Let_def int_wrap_def size_t_of_int_def
  mipi0_def world0_def fb_qvga_def clip_rect_def

lemma next_ret_trace: "trace (snd (next_ret w)) = trace w"
  by (simp add: next_ret_def split: list.splits)

lemma command_buf_trace:
  "mipi_dbi_command_buf cmd p w = (r, w') \<Longrightarrow> trace w' = trace w @ [Command_buf cmd p r]"
  by (auto simp: mipi_dbi_command_buf_def emit_def next_ret_def split: list.splits)

lemma enable_backlight_trace:
  "tinydrm_enable_backlight w = (r, w') \<Longrightarrow> trace w' = trace w @ [Tinydrm_enable_backlight r]"
  by (auto simp: tinydrm_enable_backlight_def emit_def next_ret_def split: list.splits)

lemma begin_cpu_access_trace:
  "dma_buf_begin_cpu_access w = (r, w') \<Longrightarrow> trace w' = trace w @ [Dma_buf_begin_cpu_access r]"
  by (auto simp: dma_buf_begin_cpu_access_def emit_def next_ret_def split: list.splits)

lemma end_cpu_access_trace:
  "dma_buf_end_cpu_access w = (r, w') \<Longrightarrow> trace w' = trace w @ [Dma_buf_end_cpu_access r]"
  by (auto simp: dma_buf_end_cpu_access_def emit_def next_ret_def split: list.splits)

lemma backlight_rets_append [simp]:
  "backlight_rets (xs @ ys) = backlight_rets xs @ backlight_rets ys"
  by (simp add: backlight_rets_def)

lemma backlight_rets_copy: "list_all copy_event es \<Longrightarrow> backlight_rets es = []"
  by (induction es) (auto simp: backlight_rets_def elim: copy_event.elims)

lemma buf_copy_trace:
  assumes "mipi_dbi_buf_copy fb clip swap w = (r, w')"
  shows "\<exists>new. trace w' = trace w @ new \<and> list_all copy_event new"
proof (cases "import_attach fb")
  case False
  with assms show ?thesis
    by (cases "fb_format fb") (auto simp: mipi_dbi_buf_copy_def Let_def emit_def)
next
  case True
  obtain r1 w1 where b: "dma_buf_begin_cpu_access w = (r1, w1)"
    by (cases "dma_buf_begin_cpu_access w")
  note t1 = begin_cpu_access_trace [OF b]
  show ?thesis
  proof (cases "r1 \<noteq> 0")
    case True
    with assms \<open>import_attach fb\<close> b t1 show ?thesis
      by (auto simp: mipi_dbi_buf_copy_def Let_def)
  next
    case False
    show ?thesis
    proof (cases "fb_format fb")
      case DRM_FORMAT_RGB565
      let ?w2 = "if swap then emit (Tinydrm_swab16 clip) w1 else emit (Tinydrm_memcpy clip) w1"
      from assms \<open>import_attach fb\<close> b False DRM_FORMAT_RGB565
      have e: "dma_buf_end_cpu_access ?w2 = (r, w')"
        by (auto simp: mipi_dbi_buf_copy_def Let_def)
      from end_cpu_access_trace [OF e] t1 show ?thesis
        by (auto simp: emit_def)
    next
      case DRM_FORMAT_XRGB8888
      let ?w2 = "emit (Tinydrm_xrgb8888_to_rgb565 clip swap) w1"
      from assms \<open>import_attach fb\<close> b False DRM_FORMAT_XRGB8888
      have e: "dma_buf_end_cpu_access ?w2 = (r, w')"
        by (auto simp: mipi_dbi_buf_copy_def Let_def)
      from end_cpu_access_trace [OF e] t1 show ?thesis
        by (auto simp: emit_def)
    next
      case (DRM_FORMAT_other f)
      with assms \<open>import_attach fb\<close> b False t1 show ?thesis
        by (auto simp: mipi_dbi_buf_copy_def Let_def)
    qed
  qed
qed

text \<open>The shape of one flush: staging events, then commands, then the enable sequence.\<close>

lemma fb_dirty_shape:
  assumes "mipi_dbi_fb_dirty mipi fb dirty clip w = (ret, mipi', w')"
  shows "\<exists>pre en. trace w' = trace w @ pre @ en \<and> backlight_rets pre = []
           \<and> (\<forall>c p r. Command_buf c p r \<in> set pre \<longrightarrow>
                  (c = MIPI_DCS_SET_COLUMN_ADDRESS \<and> p = Params (map word_of_int
                     [drop_bit 8 (uint (x1 clip)) AND 0xFF, uint (x1 clip) AND 0xFF,
                      drop_bit 8 (uint (x2 clip)) AND 0xFF, (uint (x2 clip) - 1) AND 0xFF]))
                  \<or> (c = MIPI_DCS_SET_PAGE_ADDRESS \<and> p = Params (map word_of_int
                     [drop_bit 8 (uint (y1 clip)) AND 0xFF, uint (y1 clip) AND 0xFF,
                      drop_bit 8 (uint (y2 clip)) AND 0xFF, (uint (y2 clip) - 1) AND 0xFF]))
                  \<or> (c = MIPI_DCS_WRITE_MEMORY_START \<and> (\<exists>src n. p = Stream src n)))
           \<and> ((en = [] \<and> mipi' = mipi)
              \<or> (\<not> enabled mipi
                  \<and> (en = [Tinydrm_enable_backlight ret]
                       \<or> en = [Msleep (enable_delay_ms mipi), Tinydrm_enable_backlight ret])
                  \<and> mipi' = (if ret = 0 then mipi\<lparr>enabled := True\<rparr> else mipi)))"
proof (cases dirty)
  case False
  with assms have "w' = w" "mipi' = mipi" by (auto simp: mipi_dbi_fb_dirty_def)
  then show ?thesis
    by (intro exI [of _ "[]"]) (simp add: backlight_rets_def)
next
  case True
  let ?full = "tinydrm_merge_clips clip (fb_width fb) (fb_height fb)"
  let ?stage = "\<not> ?full \<or> swap_bytes mipi \<or> fb_format fb = DRM_FORMAT_XRGB8888"
  obtain r1 tr w1 where st:
    "(if ?stage
      then (let (r, w') = mipi_dbi_buf_copy fb clip (swap_bytes mipi) w in (r, Tx_buf, w'))
      else (0, Vaddr, w)) = (r1, tr, w1)"
    by (metis prod_cases3)
  have "\<exists>new. trace w1 = trace w @ new \<and> list_all copy_event new"
  proof (cases ?stage)
    case True
    with st obtain r where "mipi_dbi_buf_copy fb clip (swap_bytes mipi) w = (r, w1)"
      by (auto split: prod.splits)
    then show ?thesis by (rule buf_copy_trace)
  next
    case False
    with st have "w1 = w" by auto
    then show ?thesis by simp
  qed
  then obtain cp where cp0: "trace w1 = trace w @ cp" "list_all copy_event cp"
    by blast
  then have cp: "trace w1 = trace w @ cp" "backlight_rets cp = []"
    by (simp_all add: backlight_rets_copy)
  have nc: "Command_buf c p r \<notin> set cp" for c p r
    using cp0(2) by (auto simp: list_all_iff)
  show ?thesis
  proof (cases "r1 \<noteq> 0")
    case True
    with assms \<open>dirty\<close> st have "w' = w1" "mipi' = mipi"
      by (auto simp: mipi_dbi_fb_dirty_def Let_def)
    with cp nc show ?thesis
      by (intro exI [of _ cp] exI [of _ "[]"]) simp
  next
    case r1: False
    let ?col = "[drop_bit 8 (uint (x1 clip)) AND 0xFF, uint (x1 clip) AND 0xFF,
                 drop_bit 8 (uint (x2 clip)) AND 0xFF, (uint (x2 clip) - 1) AND 0xFF]"
    let ?page = "[drop_bit 8 (uint (y1 clip)) AND 0xFF, uint (y1 clip) AND 0xFF,
                  drop_bit 8 (uint (y2 clip)) AND 0xFF, (uint (y2 clip) - 1) AND 0xFF]"
    let ?n = "size_t_of_int (int_wrap (int_wrap
                ((uint (x2 clip) - uint (x1 clip)) * (uint (y2 clip) - uint (y1 clip))) * 2))"
    obtain r2 w2 where c2: "mipi_dbi_command MIPI_DCS_SET_COLUMN_ADDRESS ?col w1 = (r2, w2)"
      by (cases "mipi_dbi_command MIPI_DCS_SET_COLUMN_ADDRESS ?col w1")
    obtain r3 w3 where c3: "mipi_dbi_command MIPI_DCS_SET_PAGE_ADDRESS ?page w2 = (r3, w3)"
      by (cases "mipi_dbi_command MIPI_DCS_SET_PAGE_ADDRESS ?page w2")
    obtain r4 w4 where c4:
      "mipi_dbi_command_buf MIPI_DCS_WRITE_MEMORY_START (Stream tr ?n) w3 = (r4, w4)"
      by (cases "mipi_dbi_command_buf MIPI_DCS_WRITE_MEMORY_START (Stream tr ?n) w3")
    define cm where "cm =
      [Command_buf MIPI_DCS_SET_COLUMN_ADDRESS (Params (map word_of_int ?col)) r2,
       Command_buf MIPI_DCS_SET_PAGE_ADDRESS (Params (map word_of_int ?page)) r3,
       Command_buf MIPI_DCS_WRITE_MEMORY_START (Stream tr ?n) r4]"
    from c2 c3 c4 cp(1) have cm: "trace w4 = trace w @ cp @ cm" "backlight_rets cm = []"
      by (auto simp: cm_def mipi_dbi_command_def backlight_rets_def dest!: command_buf_trace)
    have cs: "\<forall>c p r. Command_buf c p r \<in> set (cp @ cm) \<longrightarrow>
                  (c = MIPI_DCS_SET_COLUMN_ADDRESS \<and> p = Params (map word_of_int ?col))
                  \<or> (c = MIPI_DCS_SET_PAGE_ADDRESS \<and> p = Params (map word_of_int ?page))
                  \<or> (c = MIPI_DCS_WRITE_MEMORY_START \<and> (\<exists>src n. p = Stream src n))"
      using nc by (auto simp: cm_def)
    have body: "mipi_dbi_fb_dirty mipi fb dirty clip w =
      (if r4 \<noteq> 0 then (r4, mipi, w4)
       else if \<not> enabled mipi then
         (let w5 = (if enable_delay_ms mipi \<noteq> 0 then msleep (enable_delay_ms mipi) w4 else w4);
              (ret, w6) = tinydrm_enable_backlight w5
          in if ret \<noteq> 0 then (ret, mipi, w6) else (ret, mipi\<lparr>enabled := True\<rparr>, w6))
       else (r4, mipi, w4))"
      using \<open>dirty\<close> st r1 c2 c3 c4
      by (simp add: mipi_dbi_fb_dirty_def Let_def)
    show ?thesis
    proof (cases "r4 \<noteq> 0 \<or> enabled mipi")
      case True
      with body assms have "w' = w4" "mipi' = mipi" by (auto split: if_splits)
      with cm cs show ?thesis
        by (intro exI [of _ "cp @ cm"] exI [of _ "[]"]) (simp add: cp(2))
    next
      case False
      let ?w5 = "if enable_delay_ms mipi \<noteq> 0 then msleep (enable_delay_ms mipi) w4 else w4"
      obtain r6 w6 where b: "tinydrm_enable_backlight ?w5 = (r6, w6)"
        by (cases "tinydrm_enable_backlight ?w5")
      from body assms False b have res: "ret = r6" "w' = w6"
        "mipi' = (if r6 = 0 then mipi\<lparr>enabled := True\<rparr> else mipi)"
        by (auto simp: Let_def split: if_splits)
      have t6: "trace w6 = trace w4 @ (if enable_delay_ms mipi \<noteq> 0
                   then [Msleep (enable_delay_ms mipi), Tinydrm_enable_backlight r6]
                   else [Tinydrm_enable_backlight r6])"
        using enable_backlight_trace [OF b] by (auto simp: msleep_def emit_def)
      have "trace w' = trace w @ (cp @ cm) @ (if enable_delay_ms mipi \<noteq> 0
                   then [Msleep (enable_delay_ms mipi), Tinydrm_enable_backlight r6]
                   else [Tinydrm_enable_backlight r6])"
        using res t6 cm by simp
      moreover have "backlight_rets (cp @ cm) = []" using cm cp(2) by simp
      ultimately show ?thesis
        using False res cs
        by (intro exI [of _ "cp @ cm"]
            exI [of _ "if enable_delay_ms mipi \<noteq> 0
                   then [Msleep (enable_delay_ms mipi), Tinydrm_enable_backlight r6]
                   else [Tinydrm_enable_backlight r6]"] conjI) (assumption | simp)+
    qed
  qed
qed


lemma fb_dirty_backlight:
  assumes "mipi_dbi_fb_dirty mipi fb dirty clip w = (ret, mipi', w')"
  shows "\<exists>new. trace w' = trace w @ new
           \<and> (enabled mipi \<longrightarrow> backlight_rets new = [] \<and> enabled mipi')
           \<and> (\<not> enabled mipi \<longrightarrow>
                (backlight_rets new = [] \<and> \<not> enabled mipi')
                \<or> (new \<noteq> [] \<and> last new = Tinydrm_enable_backlight ret
                    \<and> backlight_rets new = [ret] \<and> enabled mipi' = (ret = 0)))"
proof -
  from fb_dirty_shape [OF assms] obtain pre en where
    t: "trace w' = trace w @ pre @ en" and p: "backlight_rets pre = []"
    and e: "(en = [] \<and> mipi' = mipi)
              \<or> (\<not> enabled mipi
                  \<and> (en = [Tinydrm_enable_backlight ret]
                       \<or> en = [Msleep (enable_delay_ms mipi), Tinydrm_enable_backlight ret])
                  \<and> mipi' = (if ret = 0 then mipi\<lparr>enabled := True\<rparr> else mipi))"
    by blast
  from e show ?thesis
  proof
    assume "en = [] \<and> mipi' = mipi"
    with t p show ?thesis by (intro exI [of _ pre]) (simp add: backlight_rets_def)
  next
    assume a: "\<not> enabled mipi
                  \<and> (en = [Tinydrm_enable_backlight ret]
                       \<or> en = [Msleep (enable_delay_ms mipi), Tinydrm_enable_backlight ret])
                  \<and> mipi' = (if ret = 0 then mipi\<lparr>enabled := True\<rparr> else mipi)"
    then have "en \<noteq> []" "last en = Tinydrm_enable_backlight ret" "backlight_rets en = [ret]"
      by (auto simp: backlight_rets_def)
    with a t p show ?thesis
      by (intro exI [of _ "pre @ en"]) auto
  qed
qed

lemma flushes_backlight:
  assumes "flushes reqs mipi w = (rs, mipi', w')"
  shows "\<exists>new. trace w' = trace w @ new
           \<and> (enabled mipi \<longrightarrow> backlight_rets new = [] \<and> enabled mipi')
           \<and> (\<not> enabled mipi \<longrightarrow>
                (\<exists>fails. list_all (\<lambda>r. r \<noteq> 0) fails
                   \<and> backlight_rets new = (if enabled mipi' then fails @ [0] else fails)))"
  using assms
proof (induction reqs arbitrary: mipi w rs)
  case Nil
  then show ?case by (auto simp: backlight_rets_def intro: exI [of _ "[]"])
next
  case (Cons req reqs)
  obtain fb dirty clip where req: "req = (fb, dirty, clip)" by (cases req)
  obtain ret m1 w1 where f: "mipi_dbi_fb_dirty mipi fb dirty clip w = (ret, m1, w1)"
    by (cases "mipi_dbi_fb_dirty mipi fb dirty clip w")
  obtain rs2 where r: "flushes reqs m1 w1 = (rs2, mipi', w')"
    using Cons.prems req f by (auto split: prod.splits)
  from fb_dirty_backlight [OF f] obtain n1 where
    n1: "trace w1 = trace w @ n1"
      "enabled mipi \<longrightarrow> backlight_rets n1 = [] \<and> enabled m1"
      "\<not> enabled mipi \<longrightarrow>
         (backlight_rets n1 = [] \<and> \<not> enabled m1)
         \<or> (backlight_rets n1 = [ret] \<and> enabled m1 = (ret = 0))"
    by blast
  from Cons.IH [OF r] obtain n2 where
    n2: "trace w' = trace w1 @ n2"
      "enabled m1 \<longrightarrow> backlight_rets n2 = [] \<and> enabled mipi'"
      "\<not> enabled m1 \<longrightarrow>
         (\<exists>fails. list_all (\<lambda>r. r \<noteq> 0) fails
            \<and> backlight_rets n2 = (if enabled mipi' then fails @ [0] else fails))"
    by blast
  have t: "trace w' = trace w @ (n1 @ n2)" using n1(1) n2(1) by simp
  show ?case
  proof (intro exI [of _ "n1 @ n2"] conjI impI)
    show "trace w' = trace w @ n1 @ n2" using t by simp
  next
    assume "enabled mipi"
    with n1(2) n2(2) show "backlight_rets (n1 @ n2) = []" "enabled mipi'" by simp_all
  next
    assume d: "\<not> enabled mipi"
    show "\<exists>fails. list_all (\<lambda>r. r \<noteq> 0) fails
            \<and> backlight_rets (n1 @ n2) = (if enabled mipi' then fails @ [0] else fails)"
    proof (cases "enabled m1")
      case True
      with n1(3) d have "backlight_rets n1 = [0]" by auto
      with True n2(2) show ?thesis by (intro exI [of _ "[]"]) simp
    next
      case False
      with n2(3) obtain fails where
        fl: "list_all (\<lambda>r. r \<noteq> 0) fails"
          "backlight_rets n2 = (if enabled mipi' then fails @ [0] else fails)"
        by blast
      from n1(3) d False
      have "backlight_rets n1 = [] \<or> (backlight_rets n1 = [ret] \<and> ret \<noteq> 0)" by auto
      then show ?thesis
      proof
        assume "backlight_rets n1 = []"
        with fl show ?thesis by (intro exI [of _ fails]) simp
      next
        assume "backlight_rets n1 = [ret] \<and> ret \<noteq> 0"
        with fl show ?thesis by (intro exI [of _ "ret # fails"]) simp
      qed
    qed
  qed
qed

text \<open>Two flushes of the full frame from a device that is not enabled, and a flush whose
  backlight enable fails, run through.\<close>

lemma flushes_twice_from_disabled:
  "backlight_rets (trace (snd (snd (flushes
       [(fb_qvga, True, clip_rect 0 0 320 240), (fb_qvga, True, clip_rect 0 0 320 240)]
       (mipi0 (spi8 4096)) (world0 []))))) = [0]
   \<and> enabled (fst (snd (flushes
       [(fb_qvga, True, clip_rect 0 0 320 240), (fb_qvga, True, clip_rect 0 0 320 240)]
       (mipi0 (spi8 4096)) (world0 []))))
   \<and> fst (flushes
       [(fb_qvga, True, clip_rect 0 0 320 240), (fb_qvga, True, clip_rect 0 0 320 240)]
       (mipi0 (spi8 4096)) (world0 [])) = [0, 0]"
  by (simp add: flush_eval backlight_rets_def)

lemma flush_backlight_failure:
  "fst (mipi_dbi_fb_dirty (mipi0 (spi8 4096)) fb_qvga True (clip_rect 0 0 320 240)
          ((world0 [])\<lparr>rets := [0, 0, 0, - 5]\<rparr>)) = - 5
   \<and> \<not> enabled (fst (snd (mipi_dbi_fb_dirty (mipi0 (spi8 4096)) fb_qvga True
          (clip_rect 0 0 320 240) ((world0 [])\<lparr>rets := [0, 0, 0, - 5]\<rparr>))))
   \<and> backlight_rets (trace (snd (snd (mipi_dbi_fb_dirty (mipi0 (spi8 4096)) fb_qvga True
          (clip_rect 0 0 320 240) ((world0 [])\<lparr>rets := [0, 0, 0, - 5]\<rparr>))))) = [- 5]"
  by (simp add: flush_eval backlight_rets_def)

text \<open>C8: in one flush the backlight is enabled only if the device is not yet enabled; the
  flag rises only in a flush whose last call is a backlight enable that returned 0, and a
  failed enable leaves the flag down and is the flush's return value. Over any sequence of
  flushes from a device that is not enabled, the backlight calls are failures followed by at
  most one success, and the flag is up exactly when that success has happened; from an
  enabled device no flush of the sequence calls the backlight again.\<close>

theorem C8_backlight_enable_once:
  "(case mipi_dbi_fb_dirty mipi fb dirty clip w of (ret, mipi', w') \<Rightarrow>
      \<exists>new. trace w' = trace w @ new
        \<and> (enabled mipi \<longrightarrow> backlight_rets new = [] \<and> enabled mipi')
        \<and> (\<not> enabled mipi \<longrightarrow>
             (backlight_rets new = [] \<and> \<not> enabled mipi')
             \<or> (new \<noteq> [] \<and> last new = Tinydrm_enable_backlight ret
                 \<and> backlight_rets new = [ret] \<and> enabled mipi' = (ret = 0))))
   \<and> (case flushes reqs mipi w of (rs, mipi', w') \<Rightarrow>
      \<exists>new. trace w' = trace w @ new
        \<and> (enabled mipi \<longrightarrow> backlight_rets new = [] \<and> enabled mipi')
        \<and> (\<not> enabled mipi \<longrightarrow>
             (\<exists>fails. list_all (\<lambda>r. r \<noteq> 0) fails
                \<and> backlight_rets new = (if enabled mipi' then fails @ [0] else fails))))"
proof
  obtain ret m1 w1 where f: "mipi_dbi_fb_dirty mipi fb dirty clip w = (ret, m1, w1)"
    by (cases "mipi_dbi_fb_dirty mipi fb dirty clip w")
  from fb_dirty_backlight [OF f]
  show "case mipi_dbi_fb_dirty mipi fb dirty clip w of (ret, mipi', w') \<Rightarrow>
      \<exists>new. trace w' = trace w @ new
        \<and> (enabled mipi \<longrightarrow> backlight_rets new = [] \<and> enabled mipi')
        \<and> (\<not> enabled mipi \<longrightarrow>
             (backlight_rets new = [] \<and> \<not> enabled mipi')
             \<or> (new \<noteq> [] \<and> last new = Tinydrm_enable_backlight ret
                 \<and> backlight_rets new = [ret] \<and> enabled mipi' = (ret = 0)))"
    unfolding f prod.case .
next
  obtain rs m2 w2 where r: "flushes reqs mipi w = (rs, m2, w2)"
    by (cases "flushes reqs mipi w")
  from flushes_backlight [OF r]
  show "case flushes reqs mipi w of (rs, mipi', w') \<Rightarrow>
      \<exists>new. trace w' = trace w @ new
        \<and> (enabled mipi \<longrightarrow> backlight_rets new = [] \<and> enabled mipi')
        \<and> (\<not> enabled mipi \<longrightarrow>
             (\<exists>fails. list_all (\<lambda>r. r \<noteq> 0) fails
                \<and> backlight_rets new = (if enabled mipi' then fails @ [0] else fails)))"
    unfolding r prod.case .
qed

theorem C8_witness:
  "backlight_rets (trace (snd (snd (flushes
       [(fb_qvga, True, clip_rect 0 0 320 240), (fb_qvga, True, clip_rect 0 0 320 240)]
       ((mipi0 (spi8 4096))\<lparr>enabled := True\<rparr>) (world0 []))))) = []
   \<and> enabled (fst (snd (flushes
       [(fb_qvga, True, clip_rect 0 0 320 240), (fb_qvga, True, clip_rect 0 0 320 240)]
       ((mipi0 (spi8 4096))\<lparr>enabled := True\<rparr>) (world0 []))))
   \<and> backlight_rets (trace (snd (snd (flushes
       [(fb_qvga, True, clip_rect 0 0 320 240), (fb_qvga, True, clip_rect 0 0 320 240)]
       (mipi0 (spi8 4096)) (world0 []))))) = [0]
   \<and> enabled (fst (snd (flushes
       [(fb_qvga, True, clip_rect 0 0 320 240), (fb_qvga, True, clip_rect 0 0 320 240)]
       (mipi0 (spi8 4096)) (world0 []))))
   \<and> (\<exists>fails. list_all (\<lambda>r. r \<noteq> 0) fails
         \<and> backlight_rets (trace (snd (snd (flushes
               [(fb_qvga, True, clip_rect 0 0 320 240), (fb_qvga, True, clip_rect 0 0 320 240)]
               (mipi0 (spi8 4096)) (world0 [])))))
             = fails @ [0])"
proof -
  let ?reqs = "[(fb_qvga, True, clip_rect 0 0 320 240), (fb_qvga, True, clip_rect 0 0 320 240)]"
  have on: "enabled ((mipi0 (spi8 4096))\<lparr>enabled := True\<rparr>)" by simp
  have off: "\<not> enabled (mipi0 (spi8 4096))" by (simp add: mipi0_def)
  have a: "backlight_rets (trace (snd (snd (flushes ?reqs
              ((mipi0 (spi8 4096))\<lparr>enabled := True\<rparr>) (world0 []))))) = []
           \<and> enabled (fst (snd (flushes ?reqs
              ((mipi0 (spi8 4096))\<lparr>enabled := True\<rparr>) (world0 []))))"
    using C8_backlight_enable_once [where reqs = ?reqs and w = "world0 []"
        and mipi = "(mipi0 (spi8 4096))\<lparr>enabled := True\<rparr>", THEN conjunct2] on
    by (auto simp: trace_world0 split: prod.splits)
  have b: "\<exists>fails. list_all (\<lambda>r. r \<noteq> 0) fails
         \<and> backlight_rets (trace (snd (snd (flushes ?reqs (mipi0 (spi8 4096)) (world0 [])))))
             = (if enabled (fst (snd (flushes ?reqs (mipi0 (spi8 4096)) (world0 []))))
                then fails @ [0] else fails)"
    using C8_backlight_enable_once [where reqs = ?reqs and w = "world0 []"
        and mipi = "mipi0 (spi8 4096)", THEN conjunct2] off
    by (auto simp: trace_world0 split: prod.splits)
  from a b flushes_twice_from_disabled show ?thesis by simp
qed

lemma int_wrap_id: "0 \<le> i \<Longrightarrow> i < 2 ^ 31 \<Longrightarrow> int_wrap i = i"
  by (simp add: int_wrap_def sint_sbintrunc' signed_take_bit_int_eq_self)

lemma size_t_of_int_nat: "0 \<le> i \<Longrightarrow> i < 2 ^ 64 \<Longrightarrow> size_t_of_int i = nat i"
  by (simp add: size_t_of_int_def unsigned_of_int take_bit_int_eq_self)

lemma full_frame_len:
  assumes full: "tinydrm_merge_clips clip wd ht" and small: "wd * ht * 2 < 2 ^ 31"
  shows "size_t_of_int (int_wrap (int_wrap
           ((uint (x2 clip) - uint (x1 clip)) * (uint (y2 clip) - uint (y1 clip))) * 2))
         = wd * ht * 2"
proof -
  from full have c: "uint (x1 clip) = 0" "uint (y1 clip) = 0"
    "uint (x2 clip) = int wd" "uint (y2 clip) = int ht"
    by (auto simp: tinydrm_merge_clips_def uint_nat)
  have b2: "int wd * int ht * 2 < 2 ^ 31"
  proof -
    have "int (wd * ht * 2) < int (2 ^ 31)" using small by (simp only: of_nat_less_iff)
    then show ?thesis by simp
  qed
  have p: "0 \<le> int wd * int ht" by simp
  then have b1: "int wd * int ht < 2 ^ 31" using b2 by linarith
  have "int_wrap (int wd * int ht) = int wd * int ht"
    using p b1 by (rule int_wrap_id)
  moreover have "int_wrap (int wd * int ht * 2) = int wd * int ht * 2"
    using b2 by (intro int_wrap_id) simp_all
  moreover have "size_t_of_int (int wd * int ht * 2) = nat (int wd * int ht * 2)"
    using b2 by (intro size_t_of_int_nat) simp_all
  moreover have "nat (int wd * int ht * 2) = wd * ht * 2"
    by (simp add: nat_mult_distrib)
  ultimately show ?thesis by (simp add: c)
qed

text \<open>C9: a flush of the full frame from an RGB565 framebuffer without byte swapping (the
  frame being small enough for its byte count to fit a C \<^verbatim>\<open>int\<close>) adds to the trace exactly
  one column-address command and one page-address command with four parameter bytes each and
  one memory-write command that streams width * height * 2 bytes from the framebuffer's own
  memory, followed by nothing but the enable sequence: no staging event occurs.\<close>

theorem C9_full_frame_fast_path:
  assumes dirty: "dirty"
    and full: "tinydrm_merge_clips clip (fb_width fb) (fb_height fb)"
    and fmt: "fb_format fb = DRM_FORMAT_RGB565"
    and swap: "\<not> swap_bytes mipi"
    and small: "fb_width fb * fb_height fb * 2 < 2 ^ 31"
  shows "\<exists>pc pp r2 r3 r4 en.
           trace (snd (snd (mipi_dbi_fb_dirty mipi fb dirty clip w)))
             = trace w @
               [Command_buf MIPI_DCS_SET_COLUMN_ADDRESS (Params pc) r2,
                Command_buf MIPI_DCS_SET_PAGE_ADDRESS (Params pp) r3,
                Command_buf MIPI_DCS_WRITE_MEMORY_START
                  (Stream Vaddr (fb_width fb * fb_height fb * 2)) r4] @ en
           \<and> length pc = 4 \<and> length pp = 4 \<and> list_all enable_event en"
proof -
  let ?col = "[drop_bit 8 (uint (x1 clip)) AND 0xFF, uint (x1 clip) AND 0xFF,
               drop_bit 8 (uint (x2 clip)) AND 0xFF, (uint (x2 clip) - 1) AND 0xFF]"
  let ?page = "[drop_bit 8 (uint (y1 clip)) AND 0xFF, uint (y1 clip) AND 0xFF,
                drop_bit 8 (uint (y2 clip)) AND 0xFF, (uint (y2 clip) - 1) AND 0xFF]"
  let ?n = "fb_width fb * fb_height fb * 2"
  note n = full_frame_len [OF full small]
  obtain r2 w2 where c2: "mipi_dbi_command MIPI_DCS_SET_COLUMN_ADDRESS ?col w = (r2, w2)"
    by (cases "mipi_dbi_command MIPI_DCS_SET_COLUMN_ADDRESS ?col w")
  obtain r3 w3 where c3: "mipi_dbi_command MIPI_DCS_SET_PAGE_ADDRESS ?page w2 = (r3, w3)"
    by (cases "mipi_dbi_command MIPI_DCS_SET_PAGE_ADDRESS ?page w2")
  obtain r4 w4 where c4:
    "mipi_dbi_command_buf MIPI_DCS_WRITE_MEMORY_START (Stream Vaddr ?n) w3 = (r4, w4)"
    by (cases "mipi_dbi_command_buf MIPI_DCS_WRITE_MEMORY_START (Stream Vaddr ?n) w3")
  have t4: "trace w4 = trace w @
      [Command_buf MIPI_DCS_SET_COLUMN_ADDRESS (Params (map word_of_int ?col)) r2,
       Command_buf MIPI_DCS_SET_PAGE_ADDRESS (Params (map word_of_int ?page)) r3,
       Command_buf MIPI_DCS_WRITE_MEMORY_START (Stream Vaddr ?n) r4]"
    using c2 c3 c4 by (auto simp: mipi_dbi_command_def dest!: command_buf_trace)
  let ?w5 = "if enable_delay_ms mipi \<noteq> 0 then msleep (enable_delay_ms mipi) w4 else w4"
  obtain r6 w6 where b: "tinydrm_enable_backlight ?w5 = (r6, w6)"
    by (cases "tinydrm_enable_backlight ?w5")
  have body: "snd (snd (mipi_dbi_fb_dirty mipi fb dirty clip w)) =
      (if r4 \<noteq> 0 \<or> enabled mipi then w4 else w6)"
    using dirty full fmt swap c2 c3 c4 b
    by (simp add: mipi_dbi_fb_dirty_def Let_def n)
  have t6: "trace w6 = trace w4 @ (if enable_delay_ms mipi \<noteq> 0
                   then [Msleep (enable_delay_ms mipi), Tinydrm_enable_backlight r6]
                   else [Tinydrm_enable_backlight r6])"
    using enable_backlight_trace [OF b] by (auto simp: msleep_def emit_def)
  show ?thesis
  proof (cases "r4 \<noteq> 0 \<or> enabled mipi")
    case True
    with body t4 show ?thesis
      by (intro exI [of _ "map word_of_int ?col"] exI [of _ "map word_of_int ?page"]
          exI [of _ r2] exI [of _ r3] exI [of _ r4] exI [of _ "[]"]) simp
  next
    case False
    with body t4 t6 show ?thesis
      by (intro exI [of _ "map word_of_int ?col"] exI [of _ "map word_of_int ?page"]
          exI [of _ r2] exI [of _ r3] exI [of _ r4]
          exI [of _ "if enable_delay_ms mipi \<noteq> 0
                   then [Msleep (enable_delay_ms mipi), Tinydrm_enable_backlight r6]
                   else [Tinydrm_enable_backlight r6]"]) simp
  qed
qed

theorem C9_witness:
  "tinydrm_merge_clips (clip_rect 0 0 320 240) (fb_width fb_qvga) (fb_height fb_qvga)
   \<and> fb_format fb_qvga = DRM_FORMAT_RGB565 \<and> \<not> swap_bytes (mipi0 (spi8 4096))
   \<and> fb_width fb_qvga * fb_height fb_qvga * 2 < 2 ^ 31
   \<and> (\<exists>pc pp r2 r3 r4 en.
         trace (snd (snd (mipi_dbi_fb_dirty (mipi0 (spi8 4096)) fb_qvga True
                  (clip_rect 0 0 320 240) (world0 []))))
           = [Command_buf MIPI_DCS_SET_COLUMN_ADDRESS (Params pc) r2,
              Command_buf MIPI_DCS_SET_PAGE_ADDRESS (Params pp) r3,
              Command_buf MIPI_DCS_WRITE_MEMORY_START (Stream Vaddr 153600) r4] @ en
         \<and> length pc = 4 \<and> length pp = 4 \<and> list_all enable_event en)"
proof -
  have h: "tinydrm_merge_clips (clip_rect 0 0 320 240) (fb_width fb_qvga) (fb_height fb_qvga)"
    "fb_format fb_qvga = DRM_FORMAT_RGB565" "\<not> swap_bytes (mipi0 (spi8 4096))"
    "fb_width fb_qvga * fb_height fb_qvga * 2 < 2 ^ 31"
    by (simp_all add: tinydrm_merge_clips_def clip_rect_def fb_qvga_def mipi0_def)
  have n: "fb_width fb_qvga * fb_height fb_qvga * 2 = 153600" by (simp add: fb_qvga_def)
  show ?thesis
    using h C9_full_frame_fast_path [OF TrueI h, of "world0 []"]
    unfolding n trace_world0 by simp
qed

subsection \<open>Wire length of the emulated packer\<close>

lemma blocks_count:
  assumes "i < chunk"
  shows "(chunk - (i + 8) + 7) div 8 + 1 = (chunk - i + 7) div (8 :: nat)"
proof (cases "8 \<le> chunk - i")
  case True
  then have "chunk - i + 7 = (chunk - (i + 8) + 7) + 8" by simp
  then show ?thesis by (simp only: div_add_self2)
next
  case False
  then have z: "chunk - (i + 8) = 0" by simp
  have "(chunk - i + 7) div 8 = 1"
    using assms False by (intro div_nat_eqI) simp_all
  with z show ?thesis by simp
qed

lemma pack_blocks_added: "snd (pack_blocks src pos i chunk) = (chunk - i + 7) div 8"
proof (induction src pos i chunk rule: pack_blocks.induct)
  case (1 src pos i chunk)
  show ?case
  proof (cases "i < chunk")
    case True
    have "snd (pack_blocks src pos i chunk) = snd (pack_blocks src (pos + 8) (i + 8) chunk) + 1"
      using True by (subst pack_blocks.simps) (simp add: case_prod_beta)
    also have "\<dots> = (chunk - (i + 8) + 7) div 8 + 1"
      using 1 [OF True] by simp
    also have "\<dots> = (chunk - i + 7) div 8"
      using True by (rule blocks_count)
    finally show ?thesis .
  next
    case False
    then show ?thesis by (subst pack_blocks.simps) simp
  qed
qed

lemma wire_total_snoc:
  "wire_total (es @ [Spi_sync [tr] r]) = wire_total es + len tr"
  by (simp add: wire_total_def)

lemma spi1e_loop_step:
  assumes "n \<noteq> 0" and "rets w = []"
  shows "\<exists>pos' tr. len tr = spi1e_chunk_len (min n msc)
           \<and> spi1e_loop src pos n msc w
               = spi1e_loop src pos' (n - min n msc) msc
                   (w\<lparr>trace := trace w @ [Spi_sync [tr] 0]\<rparr>)"
proof (cases "min n msc < 8")
  case True
  with assms show ?thesis
    by (subst spi1e_loop.simps)
       (auto simp: Let_def spi_sync_def next_ret_def emit_def spi1e_chunk_len_def
          intro!: exI)
next
  case False
  obtain dst added where p: "pack_blocks src pos 0 (min n msc) = (dst, added)"
    by (cases "pack_blocks src pos 0 (min n msc)")
  with pack_blocks_added [of src pos 0 "min n msc"]
  have a: "added = (min n msc + 7) div 8" by simp
  let ?tr = "\<lparr>bits_per_word = 8, speed_hz = 0, tx_buf = TxBytes dst,
               rx_buf = False, len = min n msc + added\<rparr>"
  have "spi1e_loop src pos n msc w
          = spi1e_loop src (pos + 8 * added) (n - min n msc) msc
              (w\<lparr>trace := trace w @ [Spi_sync [?tr] 0]\<rparr>)"
    using assms False p
    by (subst spi1e_loop.simps) (simp add: Let_def spi_sync_def next_ret_def emit_def)
  moreover have "len ?tr = spi1e_chunk_len (min n msc)"
    using False a by (simp add: spi1e_chunk_len_def)
  ultimately show ?thesis by blast
qed

lemma spi1e_loop_total:
  assumes "rets w = []" and "0 < msc"
  shows "\<exists>w'. spi1e_loop src pos n msc w = Some (0, w') \<and> rets w' = []
           \<and> wire_total (trace w') = wire_total (trace w) + spi1e_wire_bytes n msc"
  using assms(1)
proof (induction n arbitrary: pos w rule: less_induct)
  case (less n)
  show ?case
  proof (cases "n = 0")
    case True
    with less.prems show ?thesis
      by (simp add: spi1e_loop_0 spi1e_wire_bytes_def)
  next
    case False
    from spi1e_loop_step [OF False less.prems, of msc src pos] obtain pos' tr where
      l: "len tr = spi1e_chunk_len (min n msc)"
      and s: "spi1e_loop src pos n msc w
               = spi1e_loop src pos' (n - min n msc) msc
                   (w\<lparr>trace := trace w @ [Spi_sync [tr] 0]\<rparr>)"
      by blast
    let ?w1 = "w\<lparr>trace := trace w @ [Spi_sync [tr] 0]\<rparr>"
    have lt: "n - min n msc < n" using False assms(2) by simp
    have r1: "rets ?w1 = []" using less.prems by simp
    from less.IH [OF lt r1, of pos'] obtain w' where
      w': "spi1e_loop src pos' (n - min n msc) msc ?w1 = Some (0, w')" "rets w' = []"
        "wire_total (trace w') = wire_total (trace ?w1) + spi1e_wire_bytes (n - min n msc) msc"
      by blast
    have ar: "spi1e_chunk_len (min n msc) + spi1e_wire_bytes (n - min n msc) msc
                = spi1e_wire_bytes n msc"
    proof (cases "msc \<le> n")
      case True
      then have "n div msc = Suc ((n - msc) div msc)" "n mod msc = (n - msc) mod msc"
        using assms(2) by (simp_all add: le_div_geq le_mod_geq)
      with True show ?thesis by (simp add: spi1e_wire_bytes_def min_def)
    next
      case f: False
      with False show ?thesis by (simp add: spi1e_wire_bytes_def min_def)
    qed
    show ?thesis
      using s w' l ar by (auto simp: wire_total_snoc)
  qed
qed

lemma spi1e_transfer_total:
  assumes "dcv \<noteq> 0" and "9 \<le> max_transfer_size (spi mipi) mc"
    and "fst (kmalloc w)" and "rets w = []"
  shows "\<exists>w'. mipi_dbi_spi1e_transfer mipi dcv src n mc w = Some (0, w')
           \<and> wire_total (trace w') = wire_total (trace w)
               + spi1e_wire_bytes n (spi1e_max_src_chunk n (max_transfer_size (spi mipi) mc))"
proof -
  obtain w1 where k: "kmalloc w = (True, w1)" using assms(3) by (cases "kmalloc w") auto
  then have w1: "rets w1 = []" "trace w1 = trace w"
    using assms(4) by (auto simp: kmalloc_def split: list.splits)
  let ?msc = "spi1e_max_src_chunk n (max_transfer_size (spi mipi) mc)"
  have pos: "0 < ?msc" by (simp add: spi1e_max_src_chunk_def Let_def)
  have "mipi_dbi_spi1e_transfer mipi dcv src n mc w = spi1e_loop src 0 n ?msc w1"
    using assms(1,2) k by (simp add: mipi_dbi_spi1e_transfer_def spi1e_max_src_chunk_def Let_def)
  moreover from spi1e_loop_total [OF w1(1) pos, of src 0 n] obtain w' where
    "spi1e_loop src 0 n ?msc w1 = Some (0, w')"
    "wire_total (trace w') = wire_total (trace w1) + spi1e_wire_bytes n ?msc"
    by blast
  ultimately show ?thesis using w1(2) by auto
qed

lemma spi1e_wire_bytes_aligned:
  assumes "n mod 8 = 0" and "msc mod 8 = 0" and "0 < msc"
  shows "spi1e_wire_bytes n msc = n div 8 * 9"
proof -
  define a where "a = n div 8"
  define b where "b = msc div 8"
  have ab: "n = 8 * a" "msc = 8 * b" "0 < b"
    using assms by (auto simp: a_def b_def)
  have q: "n div msc = a div b" "n mod msc = 8 * (a mod b)"
    unfolding ab(1,2) by (simp, rule mult_mod_right [symmetric])
  have c: "\<And>k. 0 < k \<Longrightarrow> spi1e_chunk_len (8 * k) = 9 * k"
    by (simp add: spi1e_chunk_len_def)
  have cb: "spi1e_chunk_len msc = 9 * b" using c [OF ab(3)] ab(2) by simp
  have "spi1e_wire_bytes n msc = (a div b) * (9 * b) + 9 * (a mod b)"
  proof (cases "a mod b = 0")
    case True
    then show ?thesis unfolding spi1e_wire_bytes_def q cb by simp
  next
    case False
    then have "spi1e_chunk_len (8 * (a mod b)) = 9 * (a mod b)" by (intro c) simp
    with False show ?thesis unfolding spi1e_wire_bytes_def q cb by simp
  qed
  also have "\<dots> = 9 * (b * (a div b) + a mod b)"
    by (simp only: distrib_left mult.assoc mult.left_commute mult.commute)
  also have "b * (a div b) + a mod b = a" by (rule mult_div_mod_eq)
  finally show ?thesis using ab(1) by simp
qed

lemma max_src_chunk_aligned:
  "spi1e_max_src_chunk n mc mod 8 = 0 \<and> 0 < spi1e_max_src_chunk n mc"
proof -
  define m where "m = min (mc div 9 * 8) n"
  have "(m - m mod 8) mod 8 = 0" by (simp add: minus_mod_eq_mult_div)
  then have "max 8 (m - m mod 8) mod 8 = 0"
    by (simp add: max_def)
  moreover have "0 < max 8 (m - m mod 8)"
    by (simp add: less_max_iff_disj)
  ultimately show ?thesis
    unfolding spi1e_max_src_chunk_def Let_def m_def [symmetric] by (rule conjI)
qed

text \<open>For input whose length is a multiple of 8 the packer does send 9 bytes for every 8.\<close>

lemma spi1e_transfer_aligned:
  assumes "dcv \<noteq> 0" and "9 \<le> max_transfer_size (spi mipi) mc"
    and "fst (kmalloc w)" and "rets w = []" and "n mod 8 = 0"
  shows "\<exists>w'. mipi_dbi_spi1e_transfer mipi dcv src n mc w = Some (0, w')
           \<and> wire_total (trace w') = wire_total (trace w) + packed_len n"
proof -
  let ?msc = "spi1e_max_src_chunk n (max_transfer_size (spi mipi) mc)"
  have "spi1e_wire_bytes n ?msc = n div 8 * 9"
    using assms(5) max_src_chunk_aligned [of n "max_transfer_size (spi mipi) mc"]
    by (intro spi1e_wire_bytes_aligned) simp_all
  with spi1e_transfer_total [OF assms(1-4), of src n] assms(5) show ?thesis
    by (simp add: packed_len_def)
qed

lemma ceil8_of_mult: "(8 * k + 7) div 8 = (k :: nat)"
  by simp

lemma packed_len_ceil: "packed_len n = (n + 7) div 8 * 9"
proof (cases "n mod 8 = 0")
  case True
  then have "n = 8 * (n div 8)" using mult_div_mod_eq [of 8 n] by simp
  then have "(n + 7) div 8 = n div 8" using ceil8_of_mult [of "n div 8"] by simp
  with True show ?thesis by (simp add: packed_len_def)
next
  case False
  then show ?thesis by (simp add: packed_len_def)
qed

lemma ceil8_eq_iff: "r = 8 * ((r + 7) div 8) \<longleftrightarrow> r mod 8 = (0 :: nat)"
proof
  assume "r = 8 * ((r + 7) div 8)"
  then have "8 dvd r" by (metis dvd_triv_left)
  then show "r mod 8 = 0" by simp
next
  assume "r mod 8 = 0"
  then have r: "r = 8 * (r div 8)" using mult_div_mod_eq [of 8 r] by simp
  have "(8 * (r div 8) + 7) div 8 = r div 8" by (rule ceil8_of_mult)
  with r show "r = 8 * ((r + 7) div 8)" by simp
qed

lemma spi1e_tail_iff:
  "(if r = 0 then 0 else spi1e_chunk_len r) = 9 * ((r + 7) div 8) \<longleftrightarrow> r mod 8 = 0 \<or> r < 8"
proof (cases "r = 0")
  case True
  then show ?thesis by simp
next
  case nz: False
  show ?thesis
  proof (cases "r < 8")
    case True
    with nz have "(r + 7) div 8 = 1" by (intro div_nat_eqI) simp_all
    with nz True show ?thesis by (simp add: spi1e_chunk_len_def)
  next
    case False
    define c where "c = (r + 7) div 8"
    have "r + c = 9 * c \<longleftrightarrow> r = 8 * c" by auto
    also have "\<dots> \<longleftrightarrow> r mod 8 = 0" unfolding c_def by (rule ceil8_eq_iff)
    finally show ?thesis using nz False by (simp add: spi1e_chunk_len_def c_def)
  qed
qed

lemma spi1e_wire_bytes_eq_packed_iff:
  assumes "msc mod 8 = 0" and "0 < msc"
  shows "spi1e_wire_bytes n msc = packed_len n \<longleftrightarrow> n mod 8 = 0 \<or> n mod msc < 8"
proof -
  define b where "b = msc div 8"
  define q where "q = n div msc"
  define r where "r = n mod msc"
  have msc: "msc = 8 * b" and b: "0 < b" using assms by (auto simp: b_def)
  have "msc * q + r = n" unfolding q_def r_def by (rule mult_div_mod_eq)
  then have n: "n = 8 * (b * q) + r" unfolding msc by (simp add: mult.assoc)
  have ceil: "(n + 7) div 8 = b * q + (r + 7) div 8"
  proof -
    have "n + 7 = (r + 7) + (b * q) * 8" using n by simp
    then show ?thesis by (simp only: div_mult_self1)
  qed
  have m8: "n mod 8 = r mod 8"
  proof -
    have "n = r + 8 * (b * q)" using n by simp
    then show ?thesis by (simp only: mod_mult_self2)
  qed
  have cl: "spi1e_chunk_len msc = 9 * b"
    using b by (simp add: spi1e_chunk_len_def msc)
  have "spi1e_wire_bytes n msc = 9 * (b * q) + (if r = 0 then 0 else spi1e_chunk_len r)"
    unfolding spi1e_wire_bytes_def q_def [symmetric] r_def [symmetric] cl by simp
  moreover have "packed_len n = 9 * (b * q) + 9 * ((r + 7) div 8)"
    unfolding packed_len_ceil ceil by (simp add: algebra_simps)
  ultimately have "spi1e_wire_bytes n msc = packed_len n
      \<longleftrightarrow> (if r = 0 then 0 else spi1e_chunk_len r) = 9 * ((r + 7) div 8)"
    by simp
  also have "\<dots> \<longleftrightarrow> r mod 8 = 0 \<or> r < 8" by (rule spi1e_tail_iff)
  finally show ?thesis unfolding m8 r_def .
qed

text \<open>C2 says 9 wire bytes for every 8 input bytes or part of them. What the packer sends,
  when every transfer succeeds, is \<open>spi1e_wire_bytes\<close>; that is the length of C2 exactly when
  the input is a multiple of 8 bytes or its last chunk is shorter than 8 bytes. Otherwise the
  block loop runs once more for the odd bytes of the last chunk, but only one byte is added
  to the transfer length for that round, and the last 9-byte block is cut short. With a
  transfer limit of 20 bytes, 25 data bytes go out as transfers of 18 and 11 bytes, 29 in all
  instead of 36; with the limit of 4096 bytes that the command functions pass, 3650 data
  bytes go out as 4107 bytes instead of 4113.\<close>

theorem C2_wire_length:
  assumes "dcv \<noteq> 0" and "9 \<le> max_transfer_size (spi mipi) mc"
    and "fst (kmalloc w)" and "rets w = []"
  shows "\<exists>w'. mipi_dbi_spi1e_transfer mipi dcv src n mc w = Some (0, w')
           \<and> wire_total (trace w') = wire_total (trace w)
               + spi1e_wire_bytes n (spi1e_max_src_chunk n (max_transfer_size (spi mipi) mc))
           \<and> (spi1e_wire_bytes n (spi1e_max_src_chunk n (max_transfer_size (spi mipi) mc))
                 = packed_len n
               \<longleftrightarrow> n mod 8 = 0
                   \<or> n mod spi1e_max_src_chunk n (max_transfer_size (spi mipi) mc) < 8)"
proof -
  let ?msc = "spi1e_max_src_chunk n (max_transfer_size (spi mipi) mc)"
  from max_src_chunk_aligned [of n "max_transfer_size (spi mipi) mc"]
  have "?msc mod 8 = 0" "0 < ?msc" by simp_all
  then have i: "spi1e_wire_bytes n ?msc = packed_len n \<longleftrightarrow> n mod 8 = 0 \<or> n mod ?msc < 8"
    by (rule spi1e_wire_bytes_eq_packed_iff)
  from spi1e_transfer_total [OF assms, of src n] obtain w' where
    "mipi_dbi_spi1e_transfer mipi dcv src n mc w = Some (0, w')"
    "wire_total (trace w') = wire_total (trace w) + spi1e_wire_bytes n ?msc"
    by blast
  with i show ?thesis by (intro exI [of _ w'] conjI)
qed

theorem C2_witness:
  "(\<exists>w'. mipi_dbi_spi1e_transfer (mipi0 (spi8 20)) 1 zero_mem 25 4096 (world0 []) = Some (0, w')
        \<and> map wire_len (trace w') = [18, 11]
        \<and> wire_total (trace w') = 29)
   \<and> packed_len 25 = 36
   \<and> (\<exists>w'. mipi_dbi_spi1e_transfer (mipi0 (spi8 4096)) 1 zero_mem 3650 4096 (world0 [])
             = Some (0, w')
        \<and> wire_total (trace w') = 4107)
   \<and> packed_len 3650 = 4113"
proof (intro conjI)
  show "\<exists>w'. mipi_dbi_spi1e_transfer (mipi0 (spi8 20)) 1 zero_mem 25 4096 (world0 []) = Some (0, w')
        \<and> map wire_len (trace w') = [18, 11]
        \<and> wire_total (trace w') = 29"
    by (simp add: mipi_dbi_spi1e_transfer_def mipi0_def spi8_def world0_def kmalloc_def Let_def
      spi1e_loop.simps [of _ _ 25] spi1e_loop.simps [of _ _ 9] spi1e_loop_0
      pack_blocks.simps [of _ _ 0] pack_blocks.simps [of _ _ 8] pack_blocks.simps [of _ _ 16]
      spi_sync_def next_ret_def emit_def wire_total_def)
next
  show "packed_len 25 = 36" by (simp add: packed_len_def)
next
  have h: "(1 :: int) \<noteq> 0" "9 \<le> max_transfer_size (spi (mipi0 (spi8 4096))) 4096"
    "fst (kmalloc (world0 []))" "rets (world0 []) = []"
    by (simp_all add: mipi0_def spi8_def world0_def kmalloc_def)
  have m: "max_transfer_size (spi (mipi0 (spi8 4096))) 4096 = 4096"
    by (simp add: mipi0_def spi8_def)
  have b: "spi1e_wire_bytes 3650 (spi1e_max_src_chunk 3650 4096) = 4107"
    by (simp add: spi1e_wire_bytes_def spi1e_max_src_chunk_def spi1e_chunk_len_def Let_def)
  show "\<exists>w'. mipi_dbi_spi1e_transfer (mipi0 (spi8 4096)) 1 zero_mem 3650 4096 (world0 [])
             = Some (0, w')
        \<and> wire_total (trace w') = 4107"
    using C2_wire_length [OF h, of zero_mem 3650]
    unfolding m b by (auto simp: trace_world0 wire_total_def)
next
  show "packed_len 3650 = 4113" by (simp add: packed_len_def)
qed

subsection \<open>The address window\<close>

lemma and_255_mod: "(k :: int) AND 0xFF = k mod 256"
proof -
  have "(0xFF :: int) = mask 8" by (simp add: mask_eq_exp_minus_1)
  moreover have "k AND mask 8 = k mod 2 ^ 8"
    by (simp only: take_bit_eq_mask [symmetric] take_bit_eq_mod)
  ultimately show ?thesis by simp
qed

lemma byte_of_int_eq_iff:
  "(word_of_int (i mod 256) :: u8) = word_of_int (j mod 256) \<longleftrightarrow> i mod 256 = j mod 256"
  by (simp add: word_of_int_eq_iff take_bit_eq_mod)

lemma pred_div_256:
  "(k - 1) div 256 = (if k mod 256 = 0 then k div 256 - 1 else k div (256 :: int))"
proof -
  define q where "q = k div 256"
  define m where "m = k mod 256"
  have k: "k = 256 * q + m" by (simp add: q_def m_def)
  have r: "0 \<le> m" "m < 256" by (simp_all add: m_def)
  show ?thesis
  proof (cases "m = 0")
    case True
    have "k - 1 = 256 * (q - 1) + 255" using k True by simp
    then have "(k - 1) div 256 = q - 1"
      by (rule int_div_pos_eq) simp_all
    with True show ?thesis by (simp add: q_def m_def)
  next
    case False
    have "k - 1 = 256 * q + (m - 1)" using k by simp
    moreover have "0 \<le> m - 1" "m - 1 < 256" using False r by simp_all
    ultimately have "(k - 1) div 256 = q"
      by (rule int_div_pos_eq)
    with False show ?thesis by (simp add: q_def m_def)
  qed
qed

lemma window_high_byte:
  assumes "0 \<le> k" "k < 65536"
  shows "(k div 256) mod 256 = ((k - 1) div 256) mod 256 \<longleftrightarrow> k mod 256 \<noteq> (0 :: int)"
proof -
  define q where "q = k div 256"
  have q: "0 \<le> q" "q < 256" using assms by (simp_all add: q_def)
  then have m: "q mod 256 = q" by simp
  have "(q - 1) mod 256 \<noteq> q"
  proof (cases "q = 0")
    case True
    then show ?thesis by simp
  next
    case False
    with q have "0 \<le> q - 1" "q - 1 < 256" by simp_all
    then have "(q - 1) mod 256 = q - 1" by simp
    then show ?thesis by simp
  qed
  with m show ?thesis
    unfolding pred_div_256 q_def [symmetric] by (cases "k mod 256 = 0") simp_all
qed

text \<open>The bytes the flush computes are those of \<open>window_params\<close> exactly when the low byte
  of the end coordinate is not zero.\<close>

lemma column_params_agree_iff:
  "map word_of_int [drop_bit 8 (uint a) AND 0xFF, uint a AND 0xFF,
                    drop_bit 8 (uint b) AND 0xFF, (uint b - 1) AND 0xFF] = window_params a b
   \<longleftrightarrow> uint b AND 0xFF \<noteq> 0"
  for a b :: u16
proof -
  have r: "0 \<le> uint b" "uint b < 65536"
    using uint_lt2p [of b] by simp_all
  show ?thesis
    using window_high_byte [OF r]
    by (simp add: window_params_def be16_def and_255_mod drop_bit_eq_div byte_of_int_eq_iff)
qed

text \<open>A flush of the rectangle (0, 0, 256, 240) of a 320 by 240 frame, run through.\<close>

lemma flush_at_column_256:
  "trace (snd (snd (mipi_dbi_fb_dirty (mipi0 (spi8 4096)) fb_qvga True (clip_rect 0 0 256 240)
       (world0 []))))
     = [Tinydrm_memcpy (clip_rect 0 0 256 240),
        Command_buf MIPI_DCS_SET_COLUMN_ADDRESS (Params [0x00, 0x00, 0x01, 0xFF]) 0,
        Command_buf MIPI_DCS_SET_PAGE_ADDRESS (Params [0x00, 0x00, 0x00, 0xEF]) 0,
        Command_buf MIPI_DCS_WRITE_MEMORY_START (Stream Tx_buf 122880) 0,
        Tinydrm_enable_backlight 0]
   \<and> window_params 0 256 = [0x00, 0x00, 0x00, 0xFF]"
  by (simp add: flush_eval window_params_def be16_def)


text \<open>C1 asks for four parameter bytes: start, then end minus one, each as high byte and low
  byte. The code departs from it in the third byte, which it takes from the end coordinate
  itself. Every column-address and page-address command of a flush carries four parameter
  bytes, and they are the bytes of C1 exactly when the low byte of the end coordinate is not
  zero. For a rectangle that ends at column 256 the command carries 0x01, 0xFF (column 511)
  where C1 says 0x00, 0xFF (column 255).\<close>

theorem C1_address_window:
  assumes "mipi_dbi_fb_dirty mipi fb dirty clip w = (ret, mipi', w')"
  shows "\<exists>new. trace w' = trace w @ new
           \<and> (\<forall>p r. Command_buf MIPI_DCS_SET_COLUMN_ADDRESS p r \<in> set new \<longrightarrow>
                 (\<exists>ps. p = Params ps \<and> length ps = 4
                    \<and> ((ps = window_params (x1 clip) (x2 clip))
                         = (uint (x2 clip) AND 0xFF \<noteq> 0))))
           \<and> (\<forall>p r. Command_buf MIPI_DCS_SET_PAGE_ADDRESS p r \<in> set new \<longrightarrow>
                 (\<exists>ps. p = Params ps \<and> length ps = 4
                    \<and> ((ps = window_params (y1 clip) (y2 clip))
                         = (uint (y2 clip) AND 0xFF \<noteq> 0))))"
proof -
  let ?col = "map word_of_int
                [drop_bit 8 (uint (x1 clip)) AND 0xFF, uint (x1 clip) AND 0xFF,
                 drop_bit 8 (uint (x2 clip)) AND 0xFF, (uint (x2 clip) - 1) AND 0xFF] :: u8 list"
  let ?page = "map word_of_int
                [drop_bit 8 (uint (y1 clip)) AND 0xFF, uint (y1 clip) AND 0xFF,
                 drop_bit 8 (uint (y2 clip)) AND 0xFF, (uint (y2 clip) - 1) AND 0xFF] :: u8 list"
  from fb_dirty_shape [OF assms] obtain pre en where
    t: "trace w' = trace w @ pre @ en"
    and cs: "\<forall>c p r. Command_buf c p r \<in> set pre \<longrightarrow>
                  (c = MIPI_DCS_SET_COLUMN_ADDRESS \<and> p = Params ?col)
                  \<or> (c = MIPI_DCS_SET_PAGE_ADDRESS \<and> p = Params ?page)
                  \<or> (c = MIPI_DCS_WRITE_MEMORY_START \<and> (\<exists>src n. p = Stream src n))"
    and en: "en = [] \<or> en = [Tinydrm_enable_backlight ret]
               \<or> en = [Msleep (enable_delay_ms mipi), Tinydrm_enable_backlight ret]"
    by blast
  have ne: "Command_buf c p r \<notin> set en" for c p r using en by auto
  have colp: "p = Params ?col"
    if "Command_buf MIPI_DCS_SET_COLUMN_ADDRESS p r \<in> set (pre @ en)" for p r
  proof -
    from that ne have "Command_buf MIPI_DCS_SET_COLUMN_ADDRESS p r \<in> set pre" by simp
    from cs [rule_format, OF this] show ?thesis by (simp add: dcs_defs)
  qed
  have pagep: "p = Params ?page"
    if "Command_buf MIPI_DCS_SET_PAGE_ADDRESS p r \<in> set (pre @ en)" for p r
  proof -
    from that ne have "Command_buf MIPI_DCS_SET_PAGE_ADDRESS p r \<in> set pre" by simp
    from cs [rule_format, OF this] show ?thesis by (simp add: dcs_defs)
  qed
  have lc: "length ?col = 4" and lp: "length ?page = 4" by simp_all
  show ?thesis
  proof (intro exI [of _ "pre @ en"] conjI allI impI)
    show "trace w' = trace w @ pre @ en" by (rule t)
  next
    fix p r
    assume "Command_buf MIPI_DCS_SET_COLUMN_ADDRESS p r \<in> set (pre @ en)"
    from colp [OF this] lc column_params_agree_iff [of "x1 clip" "x2 clip"]
    show "\<exists>ps. p = Params ps \<and> length ps = 4
            \<and> ((ps = window_params (x1 clip) (x2 clip)) = (uint (x2 clip) AND 0xFF \<noteq> 0))"
      by blast
  next
    fix p r
    assume "Command_buf MIPI_DCS_SET_PAGE_ADDRESS p r \<in> set (pre @ en)"
    from pagep [OF this] lp column_params_agree_iff [of "y1 clip" "y2 clip"]
    show "\<exists>ps. p = Params ps \<and> length ps = 4
            \<and> ((ps = window_params (y1 clip) (y2 clip)) = (uint (y2 clip) AND 0xFF \<noteq> 0))"
      by blast
  qed
qed

theorem C1_witness:
  "Command_buf MIPI_DCS_SET_COLUMN_ADDRESS (Params [0x00, 0x00, 0x01, 0xFF]) 0
     \<in> set (trace (snd (snd (mipi_dbi_fb_dirty (mipi0 (spi8 4096)) fb_qvga True
                (clip_rect 0 0 256 240) (world0 [])))))
   \<and> [0x00, 0x00, 0x01, 0xFF] \<noteq> window_params 0 256"
proof -
  let ?f = "mipi_dbi_fb_dirty (mipi0 (spi8 4096)) fb_qvga True (clip_rect 0 0 256 240) (world0 [])"
  have e: "?f = (fst ?f, fst (snd ?f), snd (snd ?f))" by simp
  have m: "Command_buf MIPI_DCS_SET_COLUMN_ADDRESS (Params [0x00, 0x00, 0x01, 0xFF]) 0
             \<in> set (trace (snd (snd ?f)))"
    using flush_at_column_256 by simp
  from C1_address_window [OF e] obtain new where
    n: "trace (snd (snd ?f)) = trace (world0 []) @ new"
    and c: "\<forall>p r. Command_buf MIPI_DCS_SET_COLUMN_ADDRESS p r \<in> set new \<longrightarrow>
                 (\<exists>ps. p = Params ps \<and> length ps = 4
                    \<and> ((ps = window_params (x1 (clip_rect 0 0 256 240)) (x2 (clip_rect 0 0 256 240)))
                         = (uint (x2 (clip_rect 0 0 256 240)) AND 0xFF \<noteq> 0)))"
    by blast
  from n m have "Command_buf MIPI_DCS_SET_COLUMN_ADDRESS (Params [0x00, 0x00, 0x01, 0xFF]) 0
             \<in> set new" by (simp add: trace_world0)
  with c have "([0x00, 0x00, 0x01, 0xFF] = window_params (x1 (clip_rect 0 0 256 240))
                    (x2 (clip_rect 0 0 256 240)))
                 = (uint (x2 (clip_rect 0 0 256 240)) AND 0xFF \<noteq> 0)"
    by blast
  then have "[0x00, 0x00, 0x01, 0xFF] \<noteq> window_params 0 256"
    by (simp add: clip_rect_def)
  with m show ?thesis by blast
qed

end
